theory Spec2Isabelle
  imports Main "HOL-Library.Word" "HOL-Library.Sublist"
begin

section \<open>The SMTP connector command \<open>send_email.py\<close>\<close>

text \<open>
  A shallow embedding of \<^verbatim>\<open>connector_smtp/commands/send_email.py\<close>. Python strings are
  modelled as \<^typ>\<open>string\<close>, read as sequences of code points below 256; bytes are
  \<^typ>\<open>8 word\<close>; Python's unbounded integers are \<^typ>\<open>int\<close>. Everything the module
  takes from its surroundings (the process environment, the filesystem, the MIME type
  table, the \<^verbatim>\<open>email\<close> library, the SMTP server) is a field of the record \<open>world\<close>, so each
  function of the module becomes a function of the world it runs in. Exceptions are
  values of the type \<open>error\<close>, returned on the left of a sum; every call into a library
  that can raise has a failing branch.
\<close>

subsection \<open>Python string primitives used by the module\<close>

text \<open>\<^verbatim>\<open>str.isspace\<close> on the code points below 256.\<close>

definition py_isspace :: "char \<Rightarrow> bool" where
  "py_isspace c = (of_char c \<in> {9, 10, 11, 12, 13, 28, 29, 30, 31, 32, 133, 160 :: nat})"

definition py_strip :: "string \<Rightarrow> string" where
  "py_strip s = rev (dropWhile py_isspace (rev (dropWhile py_isspace s)))"

text \<open>\<^verbatim>\<open>s.split(sep)\<close> for a one-character separator: never the empty list.\<close>

fun py_split :: "char \<Rightarrow> string \<Rightarrow> string list" where
  "py_split sep [] = [[]]"
| "py_split sep (c # cs) =
     (if c = sep then [] # py_split sep cs
      else (case py_split sep cs of w # ws \<Rightarrow> (c # w) # ws | [] \<Rightarrow> [[c]]))"

text \<open>\<^verbatim>\<open>s.split()\<close>: the maximal runs of non-whitespace; \<open>w\<close> is the run being read, reversed.\<close>

fun py_split_ws_from :: "string \<Rightarrow> string \<Rightarrow> string list" where
  "py_split_ws_from w [] = (if w = [] then [] else [rev w])"
| "py_split_ws_from w (c # cs) =
     (if py_isspace c
      then (if w = [] then py_split_ws_from [] cs else rev w # py_split_ws_from [] cs)
      else py_split_ws_from (c # w) cs)"

definition py_split_ws :: "string \<Rightarrow> string list" where
  "py_split_ws s = py_split_ws_from [] s"

definition py_replace :: "char \<Rightarrow> char \<Rightarrow> string \<Rightarrow> string" where
  "py_replace old new s = map (\<lambda>c. if c = old then new else c) s"

definition py_startswith :: "string \<Rightarrow> string \<Rightarrow> bool" where
  "py_startswith s pre = (take (length pre) s = pre)"

definition py_endswith :: "string \<Rightarrow> string \<Rightarrow> bool" where
  "py_endswith s suf = (length suf \<le> length s \<and> drop (length s - length suf) s = suf)"

text \<open>\<^verbatim>\<open>sep.join(parts)\<close>.\<close>

fun py_join :: "string \<Rightarrow> string list \<Rightarrow> string" where
  "py_join sep [] = []"
| "py_join sep [w] = w"
| "py_join sep (w # v # ws) = w @ sep @ py_join sep (v # ws)"

text \<open>
  \<^verbatim>\<open>s.splitlines()\<close> on the code points below 256: a line ends at a line feed, a
  vertical tab, a form feed, a carriage return (with the line feed that follows it, if
  any), a file, group or record separator, or a next-line character; \<open>w\<close> is the line
  being read, reversed. No empty line is reported after the last line break.
\<close>

definition is_linebreak :: "char \<Rightarrow> bool" where
  "is_linebreak c = (of_char c \<in> {10, 11, 12, 13, 28, 29, 30, 133 :: nat})"

fun py_splitlines_from :: "string \<Rightarrow> string \<Rightarrow> string list" where
  "py_splitlines_from w [] = (if w = [] then [] else [rev w])"
| "py_splitlines_from w [c] =
     (if is_linebreak c then [rev w] else [rev (c # w)])"
| "py_splitlines_from w (c # d # cs) =
     (if c = CHR 0x0D \<and> d = CHR 0x0A then rev w # py_splitlines_from [] cs
      else if is_linebreak c then rev w # py_splitlines_from [] (d # cs)
      else py_splitlines_from (c # w) (d # cs))"

definition py_splitlines :: "string \<Rightarrow> string list" where
  "py_splitlines s = py_splitlines_from [] s"

text \<open>Truthiness and \<^verbatim>\<open>str(...)\<close> of a value that is a string or \<^verbatim>\<open>None\<close>.\<close>

definition truthy :: "string option \<Rightarrow> bool" where
  "truthy v = (case v of None \<Rightarrow> False | Some s \<Rightarrow> s \<noteq> [])"

definition py_str :: "string option \<Rightarrow> string" where
  "py_str v = (case v of None \<Rightarrow> ''None'' | Some s \<Rightarrow> s)"

subsection \<open>\<^verbatim>\<open>int(text)\<close>\<close>

text \<open>
  The decimal literals \<^verbatim>\<open>int\<close> accepts: surrounding whitespace, one optional sign, then
  digits, single underscores allowed between two digits. \<open>None\<close> stands for the
  \<^verbatim>\<open>ValueError\<close>. The flag of \<open>py_digits\<close> says that the previous character was a digit.
  CPython refuses a literal of more digits than \<^verbatim>\<open>sys.get_int_max_str_digits()\<close>, which
  is 4300 unless the interpreter is configured otherwise; the digits are counted
  without the sign and the underscores, leading zeros included.
\<close>

definition INT_MAX_STR_DIGITS :: nat where
  "INT_MAX_STR_DIGITS = 4300"

definition is_digit :: "char \<Rightarrow> bool" where
  "is_digit c = (48 \<le> (of_char c :: nat) \<and> (of_char c :: nat) \<le> 57)"

definition digit_val :: "char \<Rightarrow> nat" where
  "digit_val c = of_char c - 48"

fun py_digits :: "nat \<Rightarrow> bool \<Rightarrow> string \<Rightarrow> nat option" where
  "py_digits acc prev [] = (if prev then Some acc else None)"
| "py_digits acc prev (c # cs) =
     (if is_digit c then py_digits (acc * 10 + digit_val c) True cs
      else if c = CHR ''_'' \<and> prev then py_digits acc False cs
      else None)"

definition py_int :: "string \<Rightarrow> int option" where
  "py_int text =
     (case py_strip text of
        [] \<Rightarrow> None
      | c # cs \<Rightarrow>
          if INT_MAX_STR_DIGITS < length (filter is_digit (c # cs)) then None
          else if c = CHR ''-'' then map_option (\<lambda>n. - int n) (py_digits 0 False cs)
          else if c = CHR ''+'' then map_option int (py_digits 0 False cs)
          else map_option int (py_digits 0 False (c # cs)))"

subsection \<open>Limits and timeouts\<close>

definition ALLOWED_ATTACHMENTS_DIR_ENV :: string where
  "ALLOWED_ATTACHMENTS_DIR_ENV = ''M8FLOW_CONNECTOR_SMTP_ATTACHMENTS_USER_ACCESS_DIR''"

definition HARD_ATTACHMENTS_LIMIT_MB :: int where
  "HARD_ATTACHMENTS_LIMIT_MB = 100"

definition DEFAULT_ATTACHMENTS_LIMIT_MB :: int where
  "DEFAULT_ATTACHMENTS_LIMIT_MB = 100"

definition ATTACHMENTS_LIMIT_ENV :: string where
  "ATTACHMENTS_LIMIT_ENV = ''M8FLOW_CONNECTOR_SMTP_ATTACHMENTS_LIMIT_IN_MB''"

definition DEFAULT_SMTP_TIMEOUT_SECONDS :: int where
  "DEFAULT_SMTP_TIMEOUT_SECONDS = 30"

definition SMTP_TIMEOUT_ENV :: string where
  "SMTP_TIMEOUT_ENV = ''M8FLOW_CONNECTOR_SMTP_TIMEOUT_SECONDS''"

text \<open>
  \<^verbatim>\<open>_env_int\<close>: the \<^verbatim>\<open>try\<close> around \<^verbatim>\<open>int\<close> catches every exception, so the function
  has no failing branch.
\<close>

definition env_int :: "(string \<rightharpoonup> string) \<Rightarrow> string \<Rightarrow> int \<Rightarrow> int" where
  "env_int env name dflt =
     (case env name of
        None \<Rightarrow> dflt
      | Some raw \<Rightarrow>
          if py_strip raw = [] then dflt
          else (case py_int (py_strip raw) of None \<Rightarrow> dflt | Some v \<Rightarrow> v))"

definition get_attachments_limit_bytes :: "(string \<rightharpoonup> string) \<Rightarrow> int" where
  "get_attachments_limit_bytes env =
     (let requested_mb = env_int env ATTACHMENTS_LIMIT_ENV DEFAULT_ATTACHMENTS_LIMIT_MB;
          requested_mb = (if requested_mb \<le> 0 then DEFAULT_ATTACHMENTS_LIMIT_MB else requested_mb);
          effective_mb = min requested_mb HARD_ATTACHMENTS_LIMIT_MB
      in effective_mb * 1024 * 1024)"

definition get_smtp_timeout_seconds :: "(string \<rightharpoonup> string) \<Rightarrow> int" where
  "get_smtp_timeout_seconds env =
     (let timeout = env_int env SMTP_TIMEOUT_ENV DEFAULT_SMTP_TIMEOUT_SECONDS;
          timeout = (if timeout \<le> 0 then DEFAULT_SMTP_TIMEOUT_SECONDS else timeout)
      in timeout)"

subsection \<open>Errors\<close>

text \<open>
  One constructor for each \<^verbatim>\<open>raise\<close> of the module, carrying what its message is
  formatted from. \<open>Base64NotAscii\<close> is the \<^verbatim>\<open>ValueError\<close> that \<^verbatim>\<open>base64.b64decode\<close>
  raises for a non-ASCII string (it is not a \<^verbatim>\<open>binascii.Error\<close>, so the module does
  not wrap it); \<open>LibraryError\<close> is an exception raised inside a library call
  (\<^verbatim>\<open>os\<close>, \<^verbatim>\<open>mimetypes\<close>, \<^verbatim>\<open>email\<close>, \<^verbatim>\<open>smtplib\<close>), with its class name and message.
\<close>

datatype b64_error =
    LeadingPadding
  | ExcessDataAfterPadding
  | OnlyBase64Allowed
  | DiscontinuousPadding
  | InvalidDataCharCount
  | IncorrectPadding

datatype error =
    MissingFilename nat
  | PathEmpty
  | PathWindows string string
  | PathNotAbsolute string string
  | PathInvalid string
  | PathOutsideRoot string string
  | FileNotFound string
  | AttachmentTooLarge string int int
  | InvalidBase64 string b64_error
  | Base64NotAscii
  | MissingSource string
  | NoRecipients
  | LibraryError string string

text \<open>
  What a library call raises: the class name of the exception and its message. The
  module does not catch these selectively: inside a \<^verbatim>\<open>try\<close> they reach the response as
  they are, outside they leave \<^verbatim>\<open>execute\<close>.
\<close>

type_synonym library_exception = "string \<times> string"

definition raised :: "library_exception \<Rightarrow> error" where
  "raised exc = LibraryError (fst exc) (snd exc)"

text \<open>\<^verbatim>\<open>exc.__class__.__name__\<close>, the \<^verbatim>\<open>error_code\<close> of the response.\<close>

fun error_code :: "error \<Rightarrow> string" where
  "error_code (FileNotFound p) = ''FileNotFoundError''"
| "error_code (LibraryError cls msg) = cls"
| "error_code e = ''ValueError''"

text \<open>The error kinds of the specification, as predicates on the module's exceptions.\<close>

fun is_invalid_path :: "error \<Rightarrow> bool" where
  "is_invalid_path PathEmpty = True"
| "is_invalid_path (PathWindows r p) = True"
| "is_invalid_path (PathNotAbsolute r p) = True"
| "is_invalid_path (PathInvalid p) = True"
| "is_invalid_path (PathOutsideRoot r p) = True"
| "is_invalid_path e = False"

fun is_too_large :: "error \<Rightarrow> bool" where
  "is_too_large (AttachmentTooLarge n s l) = True"
| "is_too_large e = False"

subsection \<open>The world the command runs in\<close>

type_synonym byte = "8 word"

text \<open>
  An attachment descriptor: a dictionary from field names to strings. A field whose
  value is \<^verbatim>\<open>None\<close> is a field that is absent, which \<^verbatim>\<open>dict.get\<close> does not tell
  apart.
\<close>

type_synonym attachment = "string \<rightharpoonup> string"

record attachment_part =
  part_payload :: "byte list"
  part_maintype :: string
  part_subtype :: string
  part_filename :: string

text \<open>
  An \<^verbatim>\<open>EmailMessage\<close>, as far as the command is concerned: what has been stored in it,
  in the order of the calls. A new message holds nothing.
\<close>

record email_message =
  headers :: "(string \<times> string) list"
  content :: string
  alternative :: "string option"
  parts :: "attachment_part list"

definition new_message :: email_message where
  "new_message = \<lparr>headers = [], content = [], alternative = None, parts = []\<rparr>"

text \<open>The calls the command makes on an \<^verbatim>\<open>smtplib.SMTP\<close> object, in the order it makes them.\<close>

datatype smtp_action =
    Connect string int int
  | StartTls
  | Login string string
  | SendMessage email_message "string list"
  | Quit

text \<open>
  The world. \<open>realpath\<close>, \<open>getsize\<close>, \<open>read_file\<close> and \<open>guess_type\<close> return a value or
  raise; \<^verbatim>\<open>os.path.isfile\<close> never raises. The four fields of the \<^verbatim>\<open>email\<close> library say
  whether the call on the given message raises: \<^verbatim>\<open>message[name] = value\<close>,
  \<^verbatim>\<open>set_content\<close>, \<^verbatim>\<open>add_alternative\<close> and \<^verbatim>\<open>add_attachment\<close>. \<open>smtp_server\<close> says whether
  a call on the SMTP connection raises.
\<close>

record world =
  environ :: "string \<rightharpoonup> string"
  realpath :: "string \<Rightarrow> library_exception + string"
  isfile :: "string \<Rightarrow> bool"
  getsize :: "string \<Rightarrow> library_exception + nat"
  read_file :: "string \<Rightarrow> library_exception + byte list"
  guess_type :: "string \<Rightarrow> library_exception + string option"
  email_setitem :: "email_message \<Rightarrow> string \<Rightarrow> string \<Rightarrow> library_exception option"
  email_set_content :: "email_message \<Rightarrow> string \<Rightarrow> library_exception option"
  email_add_alternative :: "email_message \<Rightarrow> string \<Rightarrow> library_exception option"
  email_add_attachment :: "email_message \<Rightarrow> attachment_part \<Rightarrow> library_exception option"
  smtp_server :: "smtp_action \<Rightarrow> library_exception option"

text \<open>Sequencing two steps of which the first may raise.\<close>

definition and_then :: "error + 'a \<Rightarrow> ('a \<Rightarrow> error + 'b) \<Rightarrow> error + 'b" where
  "and_then r f = (case r of Inl exc \<Rightarrow> Inl exc | Inr x \<Rightarrow> f x)"

text \<open>
  The module reads \<^verbatim>\<open>ALLOWED_ATTACHMENTS_DIR\<close> from the environment when it is
  imported, the limits when the command runs; the model reads both from the
  environment of the world.
\<close>

definition ALLOWED_ATTACHMENTS_DIR :: "(string \<rightharpoonup> string) \<Rightarrow> string" where
  "ALLOWED_ATTACHMENTS_DIR env =
     (case env ALLOWED_ATTACHMENTS_DIR_ENV of None \<Rightarrow> ''/attachments'' | Some d \<Rightarrow> d)"

subsection \<open>Recipients\<close>

definition split_recipients :: "string option \<Rightarrow> string list" where
  "split_recipients v =
     (if \<not> truthy v then []
      else (let raw = py_replace (CHR '';'') (CHR '','') (py_str v)
            in map py_strip (filter (\<lambda>p. py_strip p \<noteq> []) (py_split (CHR '','') raw))))"

text \<open>The loop of \<^verbatim>\<open>_dedupe_keep_order\<close>, with its two variables \<open>seen\<close> and \<open>out\<close>.\<close>

fun dedupe_loop :: "string set \<Rightarrow> string list \<Rightarrow> string list \<Rightarrow> string list" where
  "dedupe_loop seen out [] = out"
| "dedupe_loop seen out (x # items) =
     (if x \<notin> seen then dedupe_loop (insert x seen) (out @ [x]) items
      else dedupe_loop seen out items)"

definition dedupe_keep_order :: "string list \<Rightarrow> string list" where
  "dedupe_keep_order items = dedupe_loop {} [] items"

subsection \<open>Content types\<close>

text \<open>\<^verbatim>\<open>s.split("/", 1)\<close> for an \<open>s\<close> that contains a slash.\<close>

definition split_slash_once :: "string \<Rightarrow> string \<times> string" where
  "split_slash_once s =
     (takeWhile (\<lambda>c. c \<noteq> CHR ''/'') s, drop 1 (dropWhile (\<lambda>c. c \<noteq> CHR ''/'') s))"

definition guess_content_type ::
  "world \<Rightarrow> string \<Rightarrow> string option \<Rightarrow> error + (string \<times> string)" where
  "guess_content_type w filename explicit =
     (if truthy explicit \<and> CHR ''/'' \<in> set (py_str explicit)
      then Inr (split_slash_once (py_str explicit))
      else (case guess_type w filename of
              Inl exc \<Rightarrow> Inl (raised exc)
            | Inr guessed \<Rightarrow>
                if truthy guessed \<and> CHR ''/'' \<in> set (py_str guessed)
                then Inr (split_slash_once (py_str guessed))
                else Inr (''application'', ''octet-stream'')))"

subsection \<open>The path guard\<close>

text \<open>
  \<^verbatim>\<open>os.path\<close> is \<^verbatim>\<open>posixpath\<close> (the connector runs in a Linux container).
  \<^verbatim>\<open>os.path.commonpath\<close> is given for the two paths the guard passes: it drops the empty
  and \<^verbatim>\<open>.\<close> components, takes the longest common prefix of the two component lists and
  joins it again; mixing an absolute and a relative path is its \<^verbatim>\<open>ValueError\<close>.
  \<^verbatim>\<open>os.path.realpath\<close> is called outside the \<^verbatim>\<open>try\<close> of the guard, so what it raises
  (a \<^verbatim>\<open>ValueError\<close> for a path with a null character) leaves the guard as it is.
\<close>

definition isabs :: "string \<Rightarrow> bool" where
  "isabs p = py_startswith p ''/''"

definition path_components :: "string \<Rightarrow> string list" where
  "path_components p = filter (\<lambda>c. c \<noteq> [] \<and> c \<noteq> ''.'') (py_split (CHR ''/'') p)"

definition commonpath :: "string \<Rightarrow> string \<Rightarrow> string option" where
  "commonpath p1 p2 =
     (if isabs p1 \<noteq> isabs p2 then None
      else (let common = longest_common_prefix (path_components p1) (path_components p2);
                root = (if isabs p1 then ''/'' else [])
            in Some (root @ py_join ''/'' common)))"

definition windows_shaped :: "string \<Rightarrow> bool" where
  "windows_shaped path_value =
     (CHR '':'' \<in> set (take 3 path_value) \<or> py_startswith path_value [CHR 0x5C, CHR 0x5C])"

definition resolve_and_validate_attachment_path :: "world \<Rightarrow> string \<Rightarrow> error + string" where
  "resolve_and_validate_attachment_path w path_value =
     (if path_value = [] then Inl PathEmpty
      else (case realpath w (ALLOWED_ATTACHMENTS_DIR (environ w)) of
              Inl exc \<Rightarrow> Inl (raised exc)
            | Inr allowed_root \<Rightarrow>
               if windows_shaped path_value then Inl (PathWindows allowed_root path_value)
               else if \<not> isabs path_value then Inl (PathNotAbsolute allowed_root path_value)
               else (case realpath w path_value of
                       Inl exc \<Rightarrow> Inl (raised exc)
                     | Inr candidate \<Rightarrow>
                        (case commonpath allowed_root candidate of
                           None \<Rightarrow> Inl (PathInvalid path_value)
                         | Some common \<Rightarrow>
                             if common \<noteq> allowed_root
                             then Inl (PathOutsideRoot allowed_root path_value)
                             else Inr candidate))))"

text \<open>
  \<^verbatim>\<open>os.path.realpath\<close> on a filesystem with the symbolic links \<open>links\<close> and with working
  directory \<open>cwd\<close>. A link is given by the components of its location and of its target,
  a canonical absolute path that passes through no link. The components are resolved
  from the left, \<open>acc\<close> being the resolved part, reversed: \<^verbatim>\<open>..\<close> drops the last
  component (at the root it stays at the root), a component that completes the location
  of a link is replaced by the target of the link. A path with a null character is the
  \<^verbatim>\<open>ValueError\<close> of \<^verbatim>\<open>os.lstat\<close>. Without links this is the lexical resolution; it is the
  \<open>realpath\<close> of the worlds the examples are evaluated in.
\<close>

fun resolve_dots :: "(string list \<times> string list) list \<Rightarrow> string list \<Rightarrow> string list \<Rightarrow> string list" where
  "resolve_dots links acc [] = rev acc"
| "resolve_dots links acc (c # cs) =
     (if c = ''..'' then resolve_dots links (case acc of [] \<Rightarrow> [] | a # as \<Rightarrow> as) cs
      else (case map_of links (rev (c # acc)) of
              None \<Rightarrow> resolve_dots links (c # acc) cs
            | Some target \<Rightarrow> resolve_dots links (rev target) cs))"

definition realpath_links ::
  "(string list \<times> string list) list \<Rightarrow> string \<Rightarrow> string \<Rightarrow> library_exception + string" where
  "realpath_links links cwd p =
     (if CHR 0x00 \<in> set p then Inl (''ValueError'', ''embedded null byte'')
      else Inr (''/'' @ py_join ''/''
                  (resolve_dots links []
                     (if isabs p then path_components p
                      else path_components cwd @ path_components p))))"

subsection \<open>Base64\<close>

text \<open>
  \<^verbatim>\<open>base64.b64decode(text, validate=True)\<close> belongs to the standard library, not to the
  module. It is modelled after the decoder of CPython 3.11 in strict mode
  (\<^verbatim>\<open>binascii.a2b_base64\<close>): a non-ASCII string is a \<^verbatim>\<open>ValueError\<close>; a leading
  \<^verbatim>\<open>=\<close> is an error; then one pass over the characters with the position in the
  current group of four (\<open>quad_pos\<close>), the bits left over from the previous character
  (\<open>leftchar\<close>), the count of padding characters seen in this group (\<open>pads\<close>) and the flag
  \<open>padding_started\<close>. Earlier and later interpreters accept a subset of the strings
  this decoder accepts, and decode them to the same bytes.
\<close>

definition b64_value :: "char \<Rightarrow> nat option" where
  "b64_value c =
     (let n = (of_char c :: nat)
      in if 65 \<le> n \<and> n \<le> 90 then Some (n - 65)
         else if 97 \<le> n \<and> n \<le> 122 then Some (n - 71)
         else if 48 \<le> n \<and> n \<le> 57 then Some (n + 4)
         else if n = 43 then Some 62
         else if n = 47 then Some 63
         else None)"

fun a2b_loop :: "nat \<Rightarrow> nat \<Rightarrow> nat \<Rightarrow> bool \<Rightarrow> byte list \<Rightarrow> string \<Rightarrow> b64_error + byte list" where
  "a2b_loop quad_pos leftchar pads padding_started out [] =
     (if quad_pos \<noteq> 0
      then (if quad_pos = 1 then Inl InvalidDataCharCount else Inl IncorrectPadding)
      else Inr out)"
| "a2b_loop quad_pos leftchar pads padding_started out (c # cs) =
     (if c = CHR ''='' then
        (if 2 \<le> quad_pos \<and> 4 \<le> quad_pos + (pads + 1)
         then (if cs \<noteq> [] then Inl ExcessDataAfterPadding else Inr out)
         else a2b_loop quad_pos leftchar (if 2 \<le> quad_pos then pads + 1 else pads) True out cs)
      else (case b64_value c of
              None \<Rightarrow> Inl OnlyBase64Allowed
            | Some v \<Rightarrow>
                if padding_started then Inl DiscontinuousPadding
                else if quad_pos = 0 then a2b_loop 1 v 0 padding_started out cs
                else if quad_pos = 1
                  then a2b_loop 2 (v mod 16) 0 padding_started
                         (out @ [of_nat (leftchar * 4 + v div 16)]) cs
                else if quad_pos = 2
                  then a2b_loop 3 (v mod 4) 0 padding_started
                         (out @ [of_nat (leftchar * 16 + v div 4)]) cs
                else a2b_loop 0 0 0 padding_started (out @ [of_nat (leftchar * 64 + v)]) cs))"

definition a2b_base64 :: "string \<Rightarrow> b64_error + byte list" where
  "a2b_base64 s =
     (if s \<noteq> [] \<and> hd s = CHR ''='' then Inl LeadingPadding else a2b_loop 0 0 0 False [] s)"

definition is_ascii :: "string \<Rightarrow> bool" where
  "is_ascii s = list_all (\<lambda>c. (of_char c :: nat) < 128) s"

text \<open>The outer \<open>Inl\<close> is the \<^verbatim>\<open>ValueError\<close>, the inner one the \<^verbatim>\<open>binascii.Error\<close>.\<close>

definition b64decode :: "string \<Rightarrow> unit + (b64_error + byte list)" where
  "b64decode s = (if \<not> is_ascii s then Inl () else Inr (a2b_base64 s))"

definition estimated_base64_decoded_size :: "string \<Rightarrow> int" where
  "estimated_base64_decoded_size b64_text =
     (let s = concat (py_split_ws b64_text)
      in if s = [] then 0
         else (let padding = (if py_endswith s ''=='' then 2
                              else if py_endswith s ''='' then 1 else 0)
               in (int (length s) * 3) div 4 - padding))"

subsection \<open>Loading an attachment\<close>

definition enforce_attachment_limit :: "string \<Rightarrow> int \<Rightarrow> int \<Rightarrow> error + unit" where
  "enforce_attachment_limit name size_bytes limit_bytes =
     (if size_bytes > limit_bytes then Inl (AttachmentTooLarge name size_bytes limit_bytes)
      else Inr ())"

definition read_attachment_bytes ::
  "world \<Rightarrow> attachment \<Rightarrow> nat \<Rightarrow> int \<Rightarrow> error + (string \<times> byte list \<times> string option)" where
  "read_attachment_bytes w att index limit_bytes =
     (let filename = py_strip (if truthy (att ''filename'') then py_str (att ''filename'') else [])
      in if filename = [] then Inl (MissingFilename index)
         else
          (let path = att ''path'';
               content_b64 = att ''content_base64'';
               content_type = att ''content_type''
           in if truthy path then
                (case resolve_and_validate_attachment_path w (py_str path) of
                   Inl e \<Rightarrow> Inl e
                 | Inr safe_path \<Rightarrow>
                     if \<not> isfile w safe_path then Inl (FileNotFound safe_path)
                     else (case getsize w safe_path of
                             Inl exc \<Rightarrow> Inl (raised exc)
                           | Inr sz \<Rightarrow>
                              (case enforce_attachment_limit filename (int sz) limit_bytes of
                                 Inl e \<Rightarrow> Inl e
                               | Inr _ \<Rightarrow>
                                  (case read_file w safe_path of
                                     Inl exc \<Rightarrow> Inl (raised exc)
                                   | Inr payload \<Rightarrow>
                                      (case enforce_attachment_limit filename
                                              (int (length payload)) limit_bytes of
                                         Inl e \<Rightarrow> Inl e
                                       | Inr _ \<Rightarrow>
                                           Inr (filename, payload,
                                                if truthy content_type
                                                then Some (py_str content_type) else None))))))
              else if truthy content_b64 then
                (let est = estimated_base64_decoded_size (py_str content_b64)
                 in case enforce_attachment_limit filename est limit_bytes of
                      Inl e \<Rightarrow> Inl e
                    | Inr _ \<Rightarrow>
                       (case b64decode (py_str content_b64) of
                          Inl _ \<Rightarrow> Inl Base64NotAscii
                        | Inr (Inl exc) \<Rightarrow> Inl (InvalidBase64 filename exc)
                        | Inr (Inr payload) \<Rightarrow>
                           (case enforce_attachment_limit filename
                                   (int (length payload)) limit_bytes of
                              Inl e \<Rightarrow> Inl e
                            | Inr _ \<Rightarrow>
                                Inr (filename, payload,
                                     if truthy content_type
                                     then Some (py_str content_type) else None))))
              else Inl (MissingSource filename)))"

subsection \<open>The command\<close>

record command =
  smtp_host :: string
  smtp_port :: int
  smtp_user :: "string option"
  smtp_password :: "string option"
  smtp_starttls :: "bool option"
  email_subject :: string
  email_body :: string
  email_body_html :: "string option"
  email_to :: string
  email_cc :: "string option"
  email_bcc :: "string option"
  email_from :: string
  email_reply_to :: "string option"
  attachments :: "attachment list"

text \<open>
  The entries of \<^verbatim>\<open>spiff__logs\<close>, one constructor for each format string of
  \<^verbatim>\<open>execute\<close>, with the values the string is formatted from.
\<close>

datatype log_entry =
    AttachmentsAllowedDir string
  | AttachmentsSizeLimit int
  | Attached string string string nat
  | AttachmentError error
  | WillSend int
  | WillStartTls
  | WillLogin
  | DidLogin
  | DidSend nat
  | DidError error

fun is_will_send :: "log_entry \<Rightarrow> bool" where
  "is_will_send (WillSend t) = True"
| "is_will_send e = False"

record response =
  response_body :: string
  response_mimetype :: string
  response_error :: "error option"
  command_response_version :: nat
  spiff_logs :: "log_entry list"

definition make_response :: "error option \<Rightarrow> log_entry list \<Rightarrow> response" where
  "make_response err logs =
     \<lparr>response_body = ''{}'', response_mimetype = ''application/json'',
      response_error = err, command_response_version = 2, spiff_logs = logs\<rparr>"

text \<open>
  What \<^verbatim>\<open>execute\<close> gives: the response it returns, or the exception that leaves it (one
  raised outside its \<^verbatim>\<open>try\<close> blocks).
\<close>

datatype outcome = Raised error | Returned response

text \<open>
  The four calls on the message. Each either raises, as the library decides, or stores
  its argument in the message.
\<close>

definition message_setitem ::
  "world \<Rightarrow> email_message \<Rightarrow> string \<Rightarrow> string \<Rightarrow> error + email_message" where
  "message_setitem w message name value =
     (case email_setitem w message name value of
        Some exc \<Rightarrow> Inl (raised exc)
      | None \<Rightarrow> Inr (message\<lparr>headers := headers message @ [(name, value)]\<rparr>))"

definition message_set_content :: "world \<Rightarrow> email_message \<Rightarrow> string \<Rightarrow> error + email_message" where
  "message_set_content w message body =
     (case email_set_content w message body of
        Some exc \<Rightarrow> Inl (raised exc)
      | None \<Rightarrow> Inr (message\<lparr>content := body\<rparr>))"

definition message_add_alternative ::
  "world \<Rightarrow> email_message \<Rightarrow> string \<Rightarrow> error + email_message" where
  "message_add_alternative w message html =
     (case email_add_alternative w message html of
        Some exc \<Rightarrow> Inl (raised exc)
      | None \<Rightarrow> Inr (message\<lparr>alternative := Some html\<rparr>))"

definition message_add_attachment ::
  "world \<Rightarrow> email_message \<Rightarrow> attachment_part \<Rightarrow> error + email_message" where
  "message_add_attachment w message part =
     (case email_add_attachment w message part of
        Some exc \<Rightarrow> Inl (raised exc)
      | None \<Rightarrow> Inr (message\<lparr>parts := parts message @ [part]\<rparr>))"

text \<open>
  The message as \<^verbatim>\<open>execute\<close> builds it before the attachments: the header
  assignments, \<^verbatim>\<open>set_content\<close> and \<^verbatim>\<open>add_alternative\<close>. These statements stand before
  the first \<^verbatim>\<open>try\<close>, so the first of them that raises ends \<^verbatim>\<open>execute\<close>. The body is
  a string, for which \<^verbatim>\<open>self.email_body or ""\<close> is the body itself.
\<close>

definition assemble_message :: "world \<Rightarrow> command \<Rightarrow> error + email_message" where
  "assemble_message w cmd =
     and_then (message_setitem w new_message ''Subject'' (email_subject cmd)) (\<lambda>message.
     and_then (message_setitem w message ''From'' (email_from cmd)) (\<lambda>message.
     and_then (message_setitem w message ''To'' (email_to cmd)) (\<lambda>message.
     and_then (if truthy (email_cc cmd)
               then message_setitem w message ''Cc'' (py_str (email_cc cmd))
               else Inr message) (\<lambda>message.
     and_then (if truthy (email_reply_to cmd)
               then message_setitem w message ''Reply-To'' (py_str (email_reply_to cmd))
               else Inr message) (\<lambda>message.
     and_then (message_set_content w message (email_body cmd)) (\<lambda>message.
     if truthy (email_body_html cmd)
     then message_add_alternative w message (py_str (email_body_html cmd))
     else Inr message))))))"

text \<open>
  The body of the attachment loop: load the attachment, find its content type, add it
  to the message. It gives the message and the log entry, or the exception of the step
  that raised.
\<close>

definition attach_one ::
  "world \<Rightarrow> int \<Rightarrow> nat \<Rightarrow> attachment \<Rightarrow> email_message \<Rightarrow> error + (email_message \<times> log_entry)" where
  "attach_one w limit_bytes i att message =
     (case read_attachment_bytes w att i limit_bytes of
        Inl exc \<Rightarrow> Inl exc
      | Inr (filename, payload, explicit_ct) \<Rightarrow>
          (case guess_content_type w filename explicit_ct of
             Inl exc \<Rightarrow> Inl exc
           | Inr (maintype, subtype) \<Rightarrow>
               (case message_add_attachment w message
                       \<lparr>part_payload = payload, part_maintype = maintype,
                        part_subtype = subtype, part_filename = filename\<rparr> of
                  Inl exc \<Rightarrow> Inl exc
                | Inr message' \<Rightarrow>
                    Inr (message', Attached filename maintype subtype (length payload)))))"

text \<open>
  The attachment loop. The first exception ends it; the result then carries the
  exception and the log as it stood.
\<close>

fun attach_all ::
  "world \<Rightarrow> int \<Rightarrow> nat \<Rightarrow> attachment list \<Rightarrow> email_message \<Rightarrow> log_entry list
     \<Rightarrow> error option \<times> email_message \<times> log_entry list" where
  "attach_all w limit_bytes i [] message logs = (None, message, logs)"
| "attach_all w limit_bytes i (att # atts) message logs =
     (case attach_one w limit_bytes i att message of
        Inl exc \<Rightarrow> (Some exc, message, logs)
      | Inr (message', entry) \<Rightarrow>
          attach_all w limit_bytes (i + 1) atts message' (logs @ [entry]))"

text \<open>
  The first \<^verbatim>\<open>try\<close> block of \<^verbatim>\<open>execute\<close>: the two log lines, of which the first calls
  \<^verbatim>\<open>os.path.realpath\<close>, then the attachment loop.
\<close>

definition attachment_stage ::
  "world \<Rightarrow> command \<Rightarrow> int \<Rightarrow> email_message
     \<Rightarrow> error option \<times> email_message \<times> log_entry list" where
  "attachment_stage w cmd limit_bytes message =
     (case realpath w (ALLOWED_ATTACHMENTS_DIR (environ w)) of
        Inl exc \<Rightarrow> (Some (raised exc), message, [])
      | Inr allowed_root \<Rightarrow>
          attach_all w limit_bytes 0 (attachments cmd) message
            [AttachmentsAllowedDir allowed_root, AttachmentsSizeLimit limit_bytes])"

text \<open>One call on the SMTP connection: \<open>None\<close> when it returns, the exception when it raises.\<close>

definition smtp_call :: "world \<Rightarrow> smtp_action \<Rightarrow> error option" where
  "smtp_call w action = map_option raised (smtp_server w action)"

text \<open>
  Leaving the \<^verbatim>\<open>with SMTP(...)\<close> block after an exception \<open>exc\<close>: the context manager
  sends \<^verbatim>\<open>QUIT\<close>; an exception of that call replaces \<open>exc\<close>.
\<close>

definition smtp_abort ::
  "world \<Rightarrow> error \<Rightarrow> log_entry list \<Rightarrow> smtp_action list
     \<Rightarrow> error option \<times> log_entry list \<times> smtp_action list" where
  "smtp_abort w exc logs trace =
     (let exc' = (case smtp_call w Quit of None \<Rightarrow> exc | Some q \<Rightarrow> q)
      in (Some exc', logs @ [DidError exc'], trace @ [Quit]))"

text \<open>
  The delivery stage, the last \<^verbatim>\<open>try\<close> of \<^verbatim>\<open>execute\<close>: it returns the error, the log
  and the calls made on the SMTP connection.
\<close>

definition smtp_session ::
  "world \<Rightarrow> command \<Rightarrow> int \<Rightarrow> email_message \<Rightarrow> string list \<Rightarrow> log_entry list
     \<Rightarrow> error option \<times> log_entry list \<times> smtp_action list" where
  "smtp_session w cmd smtp_timeout message envelope_recipients logs0 =
     (let logs = logs0 @ [WillSend smtp_timeout];
          connect = Connect (smtp_host cmd) (smtp_port cmd) smtp_timeout
      in case smtp_call w connect of
           Some exc \<Rightarrow> (Some exc, logs @ [DidError exc], [connect])
         | None \<Rightarrow>
            (let tls = (smtp_starttls cmd = Some True);
                 logs = (if tls then logs @ [WillStartTls] else logs);
                 trace = (if tls then [connect, StartTls] else [connect])
             in case (if tls then smtp_call w StartTls else None) of
                  Some exc \<Rightarrow> smtp_abort w exc logs trace
                | None \<Rightarrow>
                   (let auth = (truthy (smtp_user cmd) \<and> truthy (smtp_password cmd));
                        login = Login (py_str (smtp_user cmd)) (py_str (smtp_password cmd));
                        logs = (if auth then logs @ [WillLogin] else logs);
                        trace = (if auth then trace @ [login] else trace)
                    in case (if auth then smtp_call w login else None) of
                         Some exc \<Rightarrow> smtp_abort w exc logs trace
                       | None \<Rightarrow>
                          (let logs = (if auth then logs @ [DidLogin] else logs);
                               send = SendMessage message envelope_recipients;
                               trace = trace @ [send]
                           in case smtp_call w send of
                                Some exc \<Rightarrow> smtp_abort w exc logs trace
                              | None \<Rightarrow>
                                 (let logs = logs @ [DidSend (length envelope_recipients)]
                                  in case smtp_call w Quit of
                                       Some exc \<Rightarrow>
                                         (Some exc, logs @ [DidError exc], trace @ [Quit])
                                     | None \<Rightarrow> (None, logs, trace @ [Quit]))))))"

text \<open>
  The envelope recipients, as \<^verbatim>\<open>execute\<close> computes them after the attachment stage.
\<close>

definition envelope_recipients :: "command \<Rightarrow> string list" where
  "envelope_recipients cmd =
     (let to_list = split_recipients (Some (email_to cmd));
          cc_list = split_recipients (email_cc cmd);
          bcc_list = split_recipients (email_bcc cmd)
      in dedupe_keep_order (to_list @ cc_list @ bcc_list))"

text \<open>
  \<^verbatim>\<open>SendHTMLEmail.execute\<close>: what it gives, and the calls made on the SMTP connection
  (the empty list when no connection was opened).
\<close>

definition execute :: "world \<Rightarrow> command \<Rightarrow> outcome \<times> smtp_action list" where
  "execute w cmd =
     (let limit_bytes = get_attachments_limit_bytes (environ w);
          smtp_timeout = get_smtp_timeout_seconds (environ w)
      in case assemble_message w cmd of
           Inl exc \<Rightarrow> (Raised exc, [])
         | Inr message \<Rightarrow>
            (case attachment_stage w cmd limit_bytes message of
               (Some exc, _, logs) \<Rightarrow>
                 (Returned (make_response (Some exc) (logs @ [AttachmentError exc])), [])
             | (None, message, logs) \<Rightarrow>
                (let recipients = envelope_recipients cmd
                 in if recipients = []
                    then (Returned (make_response (Some NoRecipients) logs), [])
                    else (case smtp_session w cmd smtp_timeout message recipients logs of
                            (err, logs, trace) \<Rightarrow> (Returned (make_response err logs), trace)))))"

subsection \<open>The limit resolver, in the words of the specification\<close>

text \<open>
  The requested value of one setting: the default when the setting is absent, blank or
  not a number, and when the number is not positive.
\<close>

definition spec_requested :: "string option \<Rightarrow> int \<Rightarrow> int" where
  "spec_requested setting dflt =
     (case setting of
        None \<Rightarrow> dflt
      | Some raw \<Rightarrow>
          if py_strip raw = [] then dflt
          else (case py_int raw of
                  None \<Rightarrow> dflt
                | Some v \<Rightarrow> if v \<le> 0 then dflt else v))"

text \<open>The attachment cap: \<open>min (requested, 100 MB)\<close>, with a default of 100 MB.\<close>

definition spec_attachments_limit_bytes :: "string option \<Rightarrow> int" where
  "spec_attachments_limit_bytes setting = min (spec_requested setting 100) 100 * (1024 * 1024)"

text \<open>The timeout: the requested seconds, with a default of 30.\<close>

definition spec_smtp_timeout_seconds :: "string option \<Rightarrow> int" where
  "spec_smtp_timeout_seconds setting = spec_requested setting 30"

subsection \<open>The recipient resolver, in the words of the specification\<close>

text \<open>Splitting at every separator character.\<close>

fun split_where :: "(char \<Rightarrow> bool) \<Rightarrow> string \<Rightarrow> string list" where
  "split_where is_sep [] = [[]]"
| "split_where is_sep (c # cs) =
     (if is_sep c then [] # split_where is_sep cs
      else (case split_where is_sep cs of w # ws \<Rightarrow> (c # w) # ws | [] \<Rightarrow> [[c]]))"

text \<open>
  Both \<^verbatim>\<open>,\<close> and \<^verbatim>\<open>;\<close> separate; the tokens are trimmed and the empty ones
  discarded. A field that is not given has no tokens.
\<close>

definition spec_tokens :: "string option \<Rightarrow> string list" where
  "spec_tokens field =
     (case field of
        None \<Rightarrow> []
      | Some text \<Rightarrow>
          filter (\<lambda>t. t \<noteq> [])
            (map py_strip (split_where (\<lambda>c. c = CHR '','' \<or> c = CHR '';'') text)))"

text \<open>Keeping the first occurrence of every element, in the order of the list.\<close>

fun stable_dedupe :: "'a list \<Rightarrow> 'a list" where
  "stable_dedupe [] = []"
| "stable_dedupe (x # xs) = x # stable_dedupe (removeAll x xs)"

definition spec_resolve_envelope :: "string \<Rightarrow> string option \<Rightarrow> string option \<Rightarrow> string list" where
  "spec_resolve_envelope to cc bcc =
     stable_dedupe (spec_tokens (Some to) @ spec_tokens cc @ spec_tokens bcc)"

subsection \<open>A concrete world and a concrete command\<close>

text \<open>
  The check of the policy of the \<^verbatim>\<open>email\<close> library on a header value: a value of more
  than one line is refused.
\<close>

definition header_refused :: "string \<Rightarrow> library_exception option" where
  "header_refused value =
     (if 1 < length (py_splitlines value)
      then Some (''ValueError'',
                 ''Header values may not contain linefeed or carriage return characters'')
      else None)"

text \<open>
  A world to evaluate the command in: a filesystem that holds the given files, working
  directory \<^verbatim>\<open>/\<close>, an empty MIME type table, an \<^verbatim>\<open>email\<close> library that refuses the header
  values and the content types of more than one line and stores everything else, and an
  SMTP server on which every call succeeds. \<open>linked_world\<close> has the symbolic links given,
  \<open>plain_world\<close> has none.
\<close>

definition linked_world ::
  "(string list \<times> string list) list \<Rightarrow> (string \<rightharpoonup> string) \<Rightarrow> (string \<times> byte list) list \<Rightarrow> world" where
  "linked_world links env files =
     \<lparr>environ = env,
      realpath = realpath_links links ''/'',
      isfile = (\<lambda>p. map_of files p \<noteq> None),
      getsize = (\<lambda>p. case map_of files p of
                         None \<Rightarrow> Inl (''FileNotFoundError'', p)
                       | Some bytes \<Rightarrow> Inr (length bytes)),
      read_file = (\<lambda>p. case map_of files p of
                           None \<Rightarrow> Inl (''FileNotFoundError'', p)
                         | Some bytes \<Rightarrow> Inr bytes),
      guess_type = (\<lambda>name. Inr None),
      email_setitem = (\<lambda>message name value. header_refused value),
      email_set_content = (\<lambda>message body. None),
      email_add_alternative = (\<lambda>message html. None),
      email_add_attachment =
        (\<lambda>message part. header_refused (part_maintype part @ ''/'' @ part_subtype part)),
      smtp_server = (\<lambda>action. None)\<rparr>"

definition plain_world :: "(string \<rightharpoonup> string) \<Rightarrow> (string \<times> byte list) list \<Rightarrow> world" where
  "plain_world env files = linked_world [] env files"

definition example_command :: command where
  "example_command =
     \<lparr>smtp_host = ''mail.example.org'', smtp_port = 587,
      smtp_user = Some ''user'', smtp_password = Some ''secret'', smtp_starttls = Some True,
      email_subject = ''Report'', email_body = ''See the attachment.'',
      email_body_html = None,
      email_to = ''a@x, b@y'', email_cc = Some ''c@z; a@x'', email_bcc = Some ''d@w'',
      email_from = ''noreply@example.org'', email_reply_to = None,
      attachments = []\<rparr>"

subsection \<open>The path guard, in the words of the specification\<close>

text \<open>
  An absolute path written with single slashes and without \<^verbatim>\<open>.\<close> components: it is
  the slash followed by its components joined by slashes. Every result of
  \<^verbatim>\<open>os.path.realpath\<close> has this form.
\<close>

definition normal_abs :: "string \<Rightarrow> bool" where
  "normal_abs p = (p = ''/'' @ py_join ''/'' (path_components p))"

text \<open>
  A path is equal to the root, or nested under it, when the components of the root
  are the first components of the path.
\<close>

definition equal_or_nested_under :: "string \<Rightarrow> string \<Rightarrow> bool" where
  "equal_or_nested_under root p = (isabs p \<and> prefix (path_components root) (path_components p))"

subsection \<open>The attachment loader, in the words of the specification\<close>

text \<open>The filename of a descriptor after trimming; the loader requires it to be non-empty.\<close>

definition attachment_filename :: "attachment \<Rightarrow> string" where
  "attachment_filename att =
     (case att ''filename'' of None \<Rightarrow> [] | Some name \<Rightarrow> py_strip name)"

text \<open>The explicit content type the loader returns: a non-empty \<^verbatim>\<open>content_type\<close> field.\<close>

definition attachment_content_type :: "attachment \<Rightarrow> string option" where
  "attachment_content_type att =
     (case att ''content_type'' of
        None \<Rightarrow> None
      | Some ct \<Rightarrow> if ct = [] then None else Some ct)"

text \<open>
  The two sources of the specification. Loading from a path: the path guard, the check
  for a regular file, the size reported for the file against the limit, the read, the
  number of bytes read against the limit. Loading inline content: the estimate against
  the limit, the strict decoding, the number of decoded bytes against the limit.
\<close>

definition load_from_path ::
  "world \<Rightarrow> string \<Rightarrow> string option \<Rightarrow> string \<Rightarrow> int
     \<Rightarrow> error + (string \<times> byte list \<times> string option)" where
  "load_from_path w name content_type path limit =
     (case resolve_and_validate_attachment_path w path of
        Inl e \<Rightarrow> Inl e
      | Inr safe_path \<Rightarrow>
          if \<not> isfile w safe_path then Inl (FileNotFound safe_path)
          else (case getsize w safe_path of
                  Inl exc \<Rightarrow> Inl (raised exc)
                | Inr n \<Rightarrow>
                    if limit < int n then Inl (AttachmentTooLarge name (int n) limit)
                    else (case read_file w safe_path of
                            Inl exc \<Rightarrow> Inl (raised exc)
                          | Inr payload \<Rightarrow>
                              if limit < int (length payload)
                              then Inl (AttachmentTooLarge name (int (length payload)) limit)
                              else Inr (name, payload, content_type))))"

definition load_inline ::
  "string \<Rightarrow> string option \<Rightarrow> string \<Rightarrow> int
     \<Rightarrow> error + (string \<times> byte list \<times> string option)" where
  "load_inline name content_type b64 limit =
     (if limit < estimated_base64_decoded_size b64
      then Inl (AttachmentTooLarge name (estimated_base64_decoded_size b64) limit)
      else (case b64decode b64 of
              Inl u \<Rightarrow> Inl Base64NotAscii
            | Inr (Inl exc) \<Rightarrow> Inl (InvalidBase64 name exc)
            | Inr (Inr payload) \<Rightarrow>
                if limit < int (length payload)
                then Inl (AttachmentTooLarge name (int (length payload)) limit)
                else Inr (name, payload, content_type)))"

subsection \<open>Base64 padding, in the words of the specification\<close>

text \<open>The number of \<^verbatim>\<open>=\<close> characters a text ends with.\<close>

definition pad_count :: "string \<Rightarrow> nat" where
  "pad_count s = length (takeWhile (\<lambda>c. c = CHR ''='') (rev s))"

text \<open>
  Correct padding: the text is a whole number of groups of four characters and ends
  with at most two \<^verbatim>\<open>=\<close>.
\<close>

definition correctly_padded :: "string \<Rightarrow> bool" where
  "correctly_padded s = (length s mod 4 = 0 \<and> pad_count s \<le> 2)"

section \<open>Properties\<close>

subsection \<open>Whitespace stripping\<close>

lemma rev_dropWhile_rev_hd:
  "rev (dropWhile P (rev t)) \<noteq> [] \<Longrightarrow> hd (rev (dropWhile P (rev t))) = hd t"
proof (induction t rule: rev_induct)
  case Nil
  then show ?case by simp
next
  case (snoc x xs)
  then show ?case by (cases xs) (auto split: if_splits)
qed

lemma py_strip_no_leading: "dropWhile py_isspace (py_strip s) = py_strip s"
proof (cases "py_strip s = []")
  case True
  then show ?thesis by simp
next
  case False
  let ?t = "dropWhile py_isspace s"
  from False have ne: "rev (dropWhile py_isspace (rev ?t)) \<noteq> []"
    by (simp add: py_strip_def)
  have "?t \<noteq> []"
  proof
    assume "?t = []"
    with ne show False by simp
  qed
  then have "\<not> py_isspace (hd ?t)" by (rule hd_dropWhile)
  moreover have "hd (py_strip s) = hd ?t"
    unfolding py_strip_def using ne by (rule rev_dropWhile_rev_hd)
  ultimately show ?thesis using False
    by (simp add: dropWhile_eq_self_iff)
qed

lemma py_strip_idem: "py_strip (py_strip s) = py_strip s"
proof -
  have "py_strip (py_strip s) = rev (dropWhile py_isspace (rev (py_strip s)))"
    unfolding py_strip_def[of "py_strip s"] by (simp only: py_strip_no_leading)
  also have "\<dots> = py_strip s"
    by (simp add: py_strip_def)
  finally show ?thesis .
qed

lemma py_int_strip: "py_int (py_strip s) = py_int s"
  by (simp add: py_int_def py_strip_idem)

lemma py_strip_no_space: "\<forall>c \<in> set s. \<not> py_isspace c \<Longrightarrow> py_strip s = s"
proof -
  assume a: "\<forall>c \<in> set s. \<not> py_isspace c"
  then have "dropWhile py_isspace s = s"
    by (cases s) auto
  moreover from a have "dropWhile py_isspace (rev s) = rev s"
    by (cases "rev s") (auto simp: dropWhile_eq_self_iff dest: hd_in_set)
  ultimately show ?thesis by (simp add: py_strip_def)
qed

subsection \<open>The limit resolver\<close>

lemma limit_bounds:
  "1048576 \<le> get_attachments_limit_bytes env \<and> get_attachments_limit_bytes env \<le> 104857600"
  by (simp add: get_attachments_limit_bytes_def DEFAULT_ATTACHMENTS_LIMIT_MB_def
      HARD_ATTACHMENTS_LIMIT_MB_def Let_def min_def)

lemma timeout_positive: "1 \<le> get_smtp_timeout_seconds env"
  by (simp add: get_smtp_timeout_seconds_def DEFAULT_SMTP_TIMEOUT_SECONDS_def Let_def)

lemma timeout_of_positive:
  assumes "env SMTP_TIMEOUT_ENV = Some raw" and "py_int raw = Some v" and "0 < v"
  shows "get_smtp_timeout_seconds env = v"
proof -
  from assms(2) have "py_strip raw \<noteq> []"
    by (auto simp: py_int_def)
  with assms show ?thesis
    by (simp add: get_smtp_timeout_seconds_def env_int_def py_int_strip Let_def)
qed

lemma timeout_default:
  "env SMTP_TIMEOUT_ENV = None \<Longrightarrow> get_smtp_timeout_seconds env = 30"
  "env SMTP_TIMEOUT_ENV = Some raw \<Longrightarrow> py_int raw = None \<Longrightarrow> get_smtp_timeout_seconds env = 30"
  "env SMTP_TIMEOUT_ENV = Some raw \<Longrightarrow> py_int raw = Some v \<Longrightarrow> v \<le> 0
     \<Longrightarrow> get_smtp_timeout_seconds env = 30"
  by (simp_all add: get_smtp_timeout_seconds_def env_int_def py_int_strip Let_def
      DEFAULT_SMTP_TIMEOUT_SECONDS_def)

lemma filter_dropWhile_disjoint:
  "(\<And>c. P c \<Longrightarrow> \<not> Q c) \<Longrightarrow> filter Q (dropWhile P s) = filter Q s"
  by (induction s) auto

lemma space_not_digit: "py_isspace c \<Longrightarrow> \<not> is_digit c"
  by (auto simp: py_isspace_def is_digit_def)

lemma digits_of_stripped: "filter is_digit (py_strip s) = filter is_digit s"
proof -
  have "filter is_digit (py_strip s)
      = rev (filter is_digit (dropWhile py_isspace (rev (dropWhile py_isspace s))))"
    by (simp add: py_strip_def rev_filter)
  also have "\<dots> = rev (filter is_digit (rev (dropWhile py_isspace s)))"
    by (simp add: filter_dropWhile_disjoint space_not_digit)
  also have "\<dots> = filter is_digit (dropWhile py_isspace s)"
    by (simp add: rev_filter)
  also have "\<dots> = filter is_digit s"
    by (simp add: filter_dropWhile_disjoint space_not_digit)
  finally show ?thesis .
qed

lemma py_int_digit_limit:
  assumes "INT_MAX_STR_DIGITS < length (filter is_digit raw)"
  shows "py_int raw = None"
proof (cases "py_strip raw")
  case Nil
  then show ?thesis by (simp add: py_int_def)
next
  case (Cons c cs)
  from assms have "INT_MAX_STR_DIGITS < length (filter is_digit (py_strip raw))"
    by (simp only: digits_of_stripped)
  with Cons show ?thesis by (simp add: py_int_def)
qed

lemma py_int_blank: "py_strip raw = [] \<Longrightarrow> py_int raw = None"
  by (simp add: py_int_def)

lemma py_digits_zeros: "py_digits acc True (replicate n (CHR ''0'')) = Some (acc * 10 ^ n)"
  by (induction n arbitrary: acc) (simp_all add: is_digit_def digit_val_def)

lemma py_int_power_of_ten:
  assumes "n < INT_MAX_STR_DIGITS"
  shows "py_int (CHR ''1'' # replicate n (CHR ''0'')) = Some (10 ^ n)"
proof -
  have "py_strip (CHR ''1'' # replicate n (CHR ''0'')) = CHR ''1'' # replicate n (CHR ''0'')"
    by (rule py_strip_no_space) (auto simp: py_isspace_def)
  moreover have "length (filter is_digit (CHR ''1'' # replicate n (CHR ''0''))) = Suc n"
    by (simp add: is_digit_def)
  ultimately show ?thesis
    using assms by (simp add: py_int_def is_digit_def digit_val_def py_digits_zeros)
qed

lemma timeout_power_of_ten:
  assumes "n < INT_MAX_STR_DIGITS"
  shows "get_smtp_timeout_seconds [SMTP_TIMEOUT_ENV \<mapsto> CHR ''1'' # replicate n (CHR ''0'')] = 10 ^ n"
  by (rule timeout_of_positive [where raw = "CHR ''1'' # replicate n (CHR ''0'')"])
    (simp_all add: py_int_power_of_ten [OF assms])

text \<open>
  C6. Resolving the limits is total (both functions return an integer, the only
  exception of \<^verbatim>\<open>_env_int\<close> being caught inside it). The attachment cap depends on
  the one setting \<^verbatim>\<open>M8FLOW_CONNECTOR_SMTP_ATTACHMENTS_LIMIT_IN_MB\<close> only: the requested
  value is the default of 100 MB when the setting is absent, blank, not a number or
  not positive, and the result is the smaller of the requested value and 100 MB.
  The timeout is the requested number of seconds of its own setting, the default of 30
  in the same cases.
\<close>

theorem limits_resolution:
  "get_attachments_limit_bytes env = spec_attachments_limit_bytes (env ATTACHMENTS_LIMIT_ENV)
   \<and> get_smtp_timeout_seconds env = spec_smtp_timeout_seconds (env SMTP_TIMEOUT_ENV)
   \<and> 0 < get_attachments_limit_bytes env \<and> 0 < get_smtp_timeout_seconds env"
proof -
  have "get_attachments_limit_bytes env = spec_attachments_limit_bytes (env ATTACHMENTS_LIMIT_ENV)"
    by (simp add: get_attachments_limit_bytes_def spec_attachments_limit_bytes_def
        env_int_def spec_requested_def py_int_strip DEFAULT_ATTACHMENTS_LIMIT_MB_def
        HARD_ATTACHMENTS_LIMIT_MB_def Let_def split: option.splits)
  moreover have "get_smtp_timeout_seconds env = spec_smtp_timeout_seconds (env SMTP_TIMEOUT_ENV)"
    by (simp add: get_smtp_timeout_seconds_def spec_smtp_timeout_seconds_def
        env_int_def spec_requested_def py_int_strip DEFAULT_SMTP_TIMEOUT_SECONDS_def
        Let_def split: option.splits)
  moreover have "0 < get_attachments_limit_bytes env"
    using limit_bounds [of env] by linarith
  moreover have "0 < get_smtp_timeout_seconds env"
    using timeout_positive [of env] by linarith
  ultimately show ?thesis by simp
qed

theorem limits_resolution_witness:
  "get_attachments_limit_bytes [ATTACHMENTS_LIMIT_ENV \<mapsto> '' 5 ''] = 5 * 1024 * 1024
   \<and> get_attachments_limit_bytes [ATTACHMENTS_LIMIT_ENV \<mapsto> ''250''] = 100 * 1024 * 1024
   \<and> get_attachments_limit_bytes [ATTACHMENTS_LIMIT_ENV \<mapsto> ''-3''] = 100 * 1024 * 1024
   \<and> get_attachments_limit_bytes [ATTACHMENTS_LIMIT_ENV \<mapsto> ''ten''] = 100 * 1024 * 1024
   \<and> get_attachments_limit_bytes [ATTACHMENTS_LIMIT_ENV \<mapsto> ''  ''] = 100 * 1024 * 1024
   \<and> get_attachments_limit_bytes Map.empty = 100 * 1024 * 1024
   \<and> get_smtp_timeout_seconds [SMTP_TIMEOUT_ENV \<mapsto> ''45''] = 45
   \<and> get_smtp_timeout_seconds [SMTP_TIMEOUT_ENV \<mapsto> ''0''] = 30
   \<and> get_smtp_timeout_seconds Map.empty = 30"
  using limits_resolution [of "[ATTACHMENTS_LIMIT_ENV \<mapsto> '' 5 '']"]
    limits_resolution [of "[ATTACHMENTS_LIMIT_ENV \<mapsto> ''250'']"]
    limits_resolution [of "[ATTACHMENTS_LIMIT_ENV \<mapsto> ''-3'']"]
    limits_resolution [of "[ATTACHMENTS_LIMIT_ENV \<mapsto> ''ten'']"]
    limits_resolution [of "[ATTACHMENTS_LIMIT_ENV \<mapsto> ''  '']"]
    limits_resolution [of "Map.empty"]
    limits_resolution [of "[SMTP_TIMEOUT_ENV \<mapsto> ''45'']"]
    limits_resolution [of "[SMTP_TIMEOUT_ENV \<mapsto> ''0'']"]
  by (simp add: spec_attachments_limit_bytes_def spec_smtp_timeout_seconds_def
      spec_requested_def py_int_def py_strip_def py_isspace_def is_digit_def digit_val_def
      INT_MAX_STR_DIGITS_def ATTACHMENTS_LIMIT_ENV_def SMTP_TIMEOUT_ENV_def)

text \<open>
  C7, as stated: both resolved limits are clamped to a hard ceiling. The timeout is not
  clamped: a configured value of 4000000000 seconds is returned as it is, where the same
  number configured for the attachment cap gives the ceiling of 100 MB; and so is a
  configured value of 4300 digits, a 1 followed by 4299 zeros.
\<close>

theorem timeout_not_clamped_counterexample:
  "get_smtp_timeout_seconds [SMTP_TIMEOUT_ENV \<mapsto> ''4000000000''] = 4000000000
   \<and> get_attachments_limit_bytes [ATTACHMENTS_LIMIT_ENV \<mapsto> ''4000000000''] = 100 * 1024 * 1024
   \<and> get_smtp_timeout_seconds [SMTP_TIMEOUT_ENV \<mapsto> CHR ''1'' # replicate 4299 (CHR ''0'')]
       = 10 ^ 4299"
proof (intro conjI)
  show "get_smtp_timeout_seconds [SMTP_TIMEOUT_ENV \<mapsto> ''4000000000''] = 4000000000"
    by (simp add: get_smtp_timeout_seconds_def env_int_def SMTP_TIMEOUT_ENV_def
        DEFAULT_SMTP_TIMEOUT_SECONDS_def py_int_def py_strip_def py_isspace_def
        is_digit_def digit_val_def INT_MAX_STR_DIGITS_def)
  show "get_attachments_limit_bytes [ATTACHMENTS_LIMIT_ENV \<mapsto> ''4000000000''] = 100 * 1024 * 1024"
    by (simp add: get_attachments_limit_bytes_def env_int_def ATTACHMENTS_LIMIT_ENV_def
        DEFAULT_ATTACHMENTS_LIMIT_MB_def HARD_ATTACHMENTS_LIMIT_MB_def py_int_def py_strip_def
        py_isspace_def is_digit_def digit_val_def INT_MAX_STR_DIGITS_def)
  show "get_smtp_timeout_seconds [SMTP_TIMEOUT_ENV \<mapsto> CHR ''1'' # replicate 4299 (CHR ''0'')]
       = 10 ^ 4299"
    by (rule timeout_power_of_ten) (simp add: INT_MAX_STR_DIGITS_def)
qed

text \<open>
  C7, amended. The attachment cap is clamped to the hard ceiling of 100 MB, whatever
  is configured. The timeout is guarded from below only. It is 30 when the setting is
  absent, when \<^verbatim>\<open>int\<close> does not accept it (a blank text and a text of more than 4300
  digits are among those) and when the number is not positive; a positive number is
  returned as it is. Every power of ten below \<open>10 ^ 4300\<close> is the timeout of some
  configuration: the only limit on the timeout is the one \<^verbatim>\<open>int\<close> sets on the number
  of digits it reads.
\<close>

theorem limits_clamped:
  "get_attachments_limit_bytes env \<le> HARD_ATTACHMENTS_LIMIT_MB * 1024 * 1024
   \<and> 1 \<le> get_smtp_timeout_seconds env
   \<and> (env SMTP_TIMEOUT_ENV = None \<longrightarrow> get_smtp_timeout_seconds env = 30)
   \<and> (env SMTP_TIMEOUT_ENV = Some raw \<and> py_int raw = None
        \<longrightarrow> get_smtp_timeout_seconds env = 30)
   \<and> (env SMTP_TIMEOUT_ENV = Some raw \<and> py_int raw = Some v \<and> v \<le> 0
        \<longrightarrow> get_smtp_timeout_seconds env = 30)
   \<and> (env SMTP_TIMEOUT_ENV = Some raw \<and> py_int raw = Some v \<and> 0 < v
        \<longrightarrow> get_smtp_timeout_seconds env = v)
   \<and> (py_strip raw = [] \<longrightarrow> py_int raw = None)
   \<and> (INT_MAX_STR_DIGITS < length (filter is_digit raw) \<longrightarrow> py_int raw = None)
   \<and> (n < INT_MAX_STR_DIGITS \<longrightarrow>
        get_smtp_timeout_seconds [SMTP_TIMEOUT_ENV \<mapsto> CHR ''1'' # replicate n (CHR ''0'')]
          = 10 ^ n)"
proof (intro conjI impI)
  show "get_attachments_limit_bytes env \<le> HARD_ATTACHMENTS_LIMIT_MB * 1024 * 1024"
    using limit_bounds [of env] by (simp add: HARD_ATTACHMENTS_LIMIT_MB_def)
  show "1 \<le> get_smtp_timeout_seconds env"
    by (rule timeout_positive)
  show "get_smtp_timeout_seconds env = 30" if "env SMTP_TIMEOUT_ENV = None"
    using that by (rule timeout_default(1))
  show "get_smtp_timeout_seconds env = 30"
    if "env SMTP_TIMEOUT_ENV = Some raw \<and> py_int raw = None"
    using that timeout_default(2) [of env raw] by simp
  show "get_smtp_timeout_seconds env = 30"
    if "env SMTP_TIMEOUT_ENV = Some raw \<and> py_int raw = Some v \<and> v \<le> 0"
    using that timeout_default(3) [of env raw v] by simp
  show "get_smtp_timeout_seconds env = v"
    if "env SMTP_TIMEOUT_ENV = Some raw \<and> py_int raw = Some v \<and> 0 < v"
    using that timeout_of_positive [of env raw v] by simp
  show "py_int raw = None" if "py_strip raw = []"
    using that by (rule py_int_blank)
  show "py_int raw = None" if "INT_MAX_STR_DIGITS < length (filter is_digit raw)"
    using that by (rule py_int_digit_limit)
  show "get_smtp_timeout_seconds [SMTP_TIMEOUT_ENV \<mapsto> CHR ''1'' # replicate n (CHR ''0'')] = 10 ^ n"
    if "n < INT_MAX_STR_DIGITS"
    using that by (rule timeout_power_of_ten)
qed

theorem limits_clamped_witness:
  "get_attachments_limit_bytes [ATTACHMENTS_LIMIT_ENV \<mapsto> ''100000''] \<le> 104857600
   \<and> get_smtp_timeout_seconds Map.empty = 30
   \<and> py_int ''soon'' = None
   \<and> get_smtp_timeout_seconds [SMTP_TIMEOUT_ENV \<mapsto> ''soon''] = 30
   \<and> py_int ''-5'' = Some (- 5)
   \<and> get_smtp_timeout_seconds [SMTP_TIMEOUT_ENV \<mapsto> ''-5''] = 30
   \<and> py_int ''86400'' = Some 86400
   \<and> get_smtp_timeout_seconds [SMTP_TIMEOUT_ENV \<mapsto> ''86400''] = 86400
   \<and> py_int ''   '' = None
   \<and> py_int (replicate 4301 (CHR ''7'')) = None
   \<and> get_smtp_timeout_seconds [SMTP_TIMEOUT_ENV \<mapsto> replicate 4301 (CHR ''7'')] = 30
   \<and> get_smtp_timeout_seconds [SMTP_TIMEOUT_ENV \<mapsto> CHR ''1'' # replicate 12 (CHR ''0'')]
       = 10 ^ 12"
proof -
  have parse: "py_int ''soon'' = None" "py_int ''-5'' = Some (- 5)" "py_int ''86400'' = Some 86400"
    by (simp_all add: py_int_def py_strip_def py_isspace_def is_digit_def digit_val_def
        INT_MAX_STR_DIGITS_def)
  have blank: "py_strip ''   '' = []"
    by (simp add: py_strip_def py_isspace_def)
  have long: "INT_MAX_STR_DIGITS < length (filter is_digit (replicate 4301 (CHR ''7'')))"
    by (simp add: is_digit_def INT_MAX_STR_DIGITS_def)
  note t = limits_clamped
  from t [of "[ATTACHMENTS_LIMIT_ENV \<mapsto> ''100000'']" "''x''" 1 0]
  have a: "get_attachments_limit_bytes [ATTACHMENTS_LIMIT_ENV \<mapsto> ''100000''] \<le> 104857600"
    by (simp add: HARD_ATTACHMENTS_LIMIT_MB_def)
  from t [of Map.empty "''x''" 1 0]
  have b: "get_smtp_timeout_seconds Map.empty = 30" by simp
  from parse t [of "[SMTP_TIMEOUT_ENV \<mapsto> ''soon'']" "''soon''" 1 0]
  have c: "get_smtp_timeout_seconds [SMTP_TIMEOUT_ENV \<mapsto> ''soon''] = 30" by simp
  from parse t [of "[SMTP_TIMEOUT_ENV \<mapsto> ''-5'']" "''-5''" "- 5" 0]
  have d: "get_smtp_timeout_seconds [SMTP_TIMEOUT_ENV \<mapsto> ''-5''] = 30" by simp
  from parse t [of "[SMTP_TIMEOUT_ENV \<mapsto> ''86400'']" "''86400''" 86400 0]
  have e: "get_smtp_timeout_seconds [SMTP_TIMEOUT_ENV \<mapsto> ''86400''] = 86400" by simp
  from blank t [of Map.empty "''   ''" 1 0]
  have f: "py_int ''   '' = None" by simp
  from long t [of Map.empty "replicate 4301 (CHR ''7'')" 1 0]
  have g: "py_int (replicate 4301 (CHR ''7'')) = None" by simp
  from g t [of "[SMTP_TIMEOUT_ENV \<mapsto> replicate 4301 (CHR ''7'')]" "replicate 4301 (CHR ''7'')" 1 0]
  have h: "get_smtp_timeout_seconds [SMTP_TIMEOUT_ENV \<mapsto> replicate 4301 (CHR ''7'')] = 30"
    by simp
  from t [of Map.empty "''x''" 1 12]
  have i: "get_smtp_timeout_seconds [SMTP_TIMEOUT_ENV \<mapsto> CHR ''1'' # replicate 12 (CHR ''0'')]
       = 10 ^ 12"
    by (simp add: INT_MAX_STR_DIGITS_def)
  from a b c d e f g h i parse show ?thesis by (intro conjI)
qed

subsection \<open>The recipient resolver\<close>

lemma py_split_replace:
  "py_split (CHR '','') (py_replace (CHR '';'') (CHR '','') s)
     = split_where (\<lambda>c. c = CHR '','' \<or> c = CHR '';'') s"
  by (induction s) (auto simp: py_replace_def split: list.splits)

lemma split_recipients_spec: "split_recipients v = spec_tokens v"
proof (cases v)
  case None
  then show ?thesis by (simp add: split_recipients_def spec_tokens_def truthy_def)
next
  case (Some field)
  show ?thesis
  proof (cases "field = []")
    case True
    with Some show ?thesis
      by (simp add: split_recipients_def spec_tokens_def truthy_def py_strip_def)
  next
    case False
    with Some show ?thesis
      by (simp add: split_recipients_def spec_tokens_def truthy_def py_str_def
          py_split_replace filter_map comp_def)
  qed
qed

lemma dedupe_loop_stable:
  "dedupe_loop seen out items = out @ stable_dedupe (filter (\<lambda>x. x \<notin> seen) items)"
proof (induction items arbitrary: seen out)
  case Nil
  then show ?case by simp
next
  case (Cons x items)
  have "removeAll x (filter (\<lambda>y. y \<notin> seen) items) = filter (\<lambda>y. y \<notin> insert x seen) items"
    by (induction items) auto
  with Cons show ?case by simp
qed

lemma dedupe_keep_order_stable: "dedupe_keep_order items = stable_dedupe items"
  by (simp add: dedupe_keep_order_def dedupe_loop_stable)

lemma set_stable_dedupe: "set (stable_dedupe xs) = set xs"
  by (induction xs rule: stable_dedupe.induct) auto

lemma distinct_stable_dedupe: "distinct (stable_dedupe xs)"
  by (induction xs rule: stable_dedupe.induct) (auto simp: set_stable_dedupe)

lemma dedupe_loop_drop_duplicate:
  "x \<in> seen \<union> set xs \<Longrightarrow>
     dedupe_loop seen out (xs @ x # ys) = dedupe_loop seen out (xs @ ys)"
  by (induction xs arbitrary: seen out) auto

lemma dedupe_drop_duplicate:
  "x \<in> set xs \<Longrightarrow> dedupe_keep_order (xs @ x # ys) = dedupe_keep_order (xs @ ys)"
  by (simp add: dedupe_keep_order_def dedupe_loop_drop_duplicate)

lemma envelope_recipients_tokens:
  "envelope_recipients cmd =
     dedupe_keep_order (split_recipients (Some (email_to cmd)) @ split_recipients (email_cc cmd)
        @ split_recipients (email_bcc cmd))"
  by (simp add: envelope_recipients_def Let_def)

text \<open>
  C8. The envelope recipients are the tokens of To, then Cc, then Bcc (each field split
  at \<^verbatim>\<open>,\<close> and \<^verbatim>\<open>;\<close>, the tokens trimmed, the empty ones dropped), with every
  address kept at its first occurrence only: the list has no repetition, holds exactly
  the tokens of the three fields, and does not change when an address that already
  occurs is repeated further on, or when such a repetition is moved. The example
  of the specification evaluates to the one address.
\<close>

theorem envelope_resolution:
  "envelope_recipients cmd = spec_resolve_envelope (email_to cmd) (email_cc cmd) (email_bcc cmd)
   \<and> distinct (envelope_recipients cmd)
   \<and> set (envelope_recipients cmd) =
       set (spec_tokens (Some (email_to cmd))) \<union> set (spec_tokens (email_cc cmd))
         \<union> set (spec_tokens (email_bcc cmd))
   \<and> (x \<in> set xs \<longrightarrow>
         dedupe_keep_order (xs @ x # ys @ zs) = dedupe_keep_order (xs @ ys @ zs)
         \<and> dedupe_keep_order (xs @ ys @ x # zs) = dedupe_keep_order (xs @ ys @ zs))
   \<and> envelope_recipients
        (cmd\<lparr>email_to := ''a@x,a@x'', email_cc := Some ''a@x'', email_bcc := Some []\<rparr>)
       = [''a@x'']"
proof -
  have eq: "envelope_recipients cmd
      = spec_resolve_envelope (email_to cmd) (email_cc cmd) (email_bcc cmd)"
    by (simp add: envelope_recipients_tokens spec_resolve_envelope_def
        dedupe_keep_order_stable split_recipients_spec)
  have dist: "distinct (envelope_recipients cmd)"
    by (simp add: eq spec_resolve_envelope_def distinct_stable_dedupe)
  have elems: "set (envelope_recipients cmd) =
       set (spec_tokens (Some (email_to cmd))) \<union> set (spec_tokens (email_cc cmd))
         \<union> set (spec_tokens (email_bcc cmd))"
    by (simp add: eq spec_resolve_envelope_def set_stable_dedupe Un_assoc)
  have dup: "dedupe_keep_order (xs @ x # ys @ zs) = dedupe_keep_order (xs @ ys @ zs)
         \<and> dedupe_keep_order (xs @ ys @ x # zs) = dedupe_keep_order (xs @ ys @ zs)"
    if "x \<in> set xs"
    using that dedupe_drop_duplicate [of x xs "ys @ zs"]
      dedupe_drop_duplicate [of x "xs @ ys" zs] by simp
  have ex: "envelope_recipients
        (cmd\<lparr>email_to := ''a@x,a@x'', email_cc := Some ''a@x'', email_bcc := Some []\<rparr>)
       = [''a@x'']"
    by (simp add: envelope_recipients_tokens split_recipients_def truthy_def py_str_def
        py_replace_def py_strip_def py_isspace_def dedupe_keep_order_def)
  from eq dist elems dup ex show ?thesis by blast
qed

theorem envelope_resolution_witness:
  "envelope_recipients example_command = [''a@x'', ''b@y'', ''c@z'', ''d@w'']
   \<and> ''a@x'' \<in> set [''a@x'', ''b@y'']
   \<and> dedupe_keep_order ([''a@x'', ''b@y''] @ ''a@x'' # [''c@z''] @ [''d@w''])
       = dedupe_keep_order ([''a@x'', ''b@y''] @ [''c@z''] @ [''d@w''])
   \<and> dedupe_keep_order ([''a@x'', ''b@y''] @ [''c@z''] @ ''a@x'' # [''d@w''])
       = dedupe_keep_order ([''a@x'', ''b@y''] @ [''c@z''] @ [''d@w''])"
proof -
  have "envelope_recipients example_command = [''a@x'', ''b@y'', ''c@z'', ''d@w'']"
    by (simp add: envelope_recipients_tokens example_command_def split_recipients_def
        truthy_def py_str_def py_replace_def py_strip_def py_isspace_def dedupe_keep_order_def)
  with envelope_resolution
         [of example_command "''a@x''" "[''a@x'', ''b@y'']" "[''c@z'']" "[''d@w'']"]
  show ?thesis by simp
qed

subsection \<open>The path guard\<close>

lemma guard_accepts_iff:
  "resolve_and_validate_attachment_path w p = Inr c \<longleftrightarrow>
     p \<noteq> [] \<and> \<not> windows_shaped p \<and> isabs p
     \<and> (\<exists>root. realpath w (ALLOWED_ATTACHMENTS_DIR (environ w)) = Inr root
            \<and> realpath w p = Inr c \<and> commonpath root c = Some root)"
  by (auto simp: resolve_and_validate_attachment_path_def split: sum.splits option.splits)

lemma guard_rejects_invalid_path:
  "resolve_and_validate_attachment_path w p = Inl e \<Longrightarrow>
     is_invalid_path e
     \<or> (\<exists>exc. e = raised exc
           \<and> (realpath w (ALLOWED_ATTACHMENTS_DIR (environ w)) = Inl exc \<or> realpath w p = Inl exc))"
  by (auto simp: resolve_and_validate_attachment_path_def
      split: sum.splits option.splits if_splits)

lemma py_join_nonempty: "ws \<noteq> [] \<Longrightarrow> hd ws \<noteq> [] \<Longrightarrow> py_join sep ws \<noteq> []"
  by (induction sep ws rule: py_join.induct) auto

lemma py_join_Cons: "py_join sep (w # ws) = (if ws = [] then w else w @ sep @ py_join sep ws)"
  by (cases ws) auto

lemma py_join_longer:
  "zs \<noteq> [] \<Longrightarrow> hd zs \<noteq> [] \<Longrightarrow> length (py_join sep xs) < length (py_join sep (xs @ zs))"
proof (induction xs)
  case Nil
  then show ?case using py_join_nonempty [of zs sep] by simp
next
  case (Cons x xs)
  then show ?case using py_join_nonempty [of zs sep] by (simp add: py_join_Cons)
qed

lemma py_join_prefix_inj:
  assumes "prefix xs ys" and "\<forall>c \<in> set ys. c \<noteq> []" and "py_join sep xs = py_join sep ys"
  shows "xs = ys"
proof -
  from assms(1) obtain zs where ys: "ys = xs @ zs" by (auto simp: prefix_def)
  show ?thesis
  proof (cases zs)
    case Nil
    with ys show ?thesis by simp
  next
    case (Cons z zs')
    with ys assms(2) have "zs \<noteq> []" "hd zs \<noteq> []" by auto
    then have "length (py_join sep xs) < length (py_join sep (xs @ zs))"
      by (rule py_join_longer)
    with assms(3) ys show ?thesis by simp
  qed
qed

lemma lcp_eq_iff_prefix: "longest_common_prefix xs ys = xs \<longleftrightarrow> prefix xs ys"
proof
  assume "longest_common_prefix xs ys = xs"
  then show "prefix xs ys" using longest_common_prefix_prefix2 [of xs ys] by simp
next
  assume "prefix xs ys"
  then have "prefix xs (longest_common_prefix xs ys)"
    by (simp add: longest_common_prefix_max_prefix)
  then show "longest_common_prefix xs ys = xs"
    using longest_common_prefix_prefix1 [of xs ys] by (simp add: prefix_order.antisym)
qed

lemma path_components_nonempty: "\<forall>c \<in> set (path_components p). c \<noteq> []"
  by (simp add: path_components_def)

lemma normal_abs_isabs: "normal_abs r \<Longrightarrow> isabs r"
  by (cases r) (auto simp: normal_abs_def isabs_def py_startswith_def)

lemma commonpath_root_iff:
  assumes "normal_abs r"
  shows "commonpath r c = Some r \<longleftrightarrow> equal_or_nested_under r c"
proof (cases "isabs c")
  case False
  with assms show ?thesis
    by (simp add: commonpath_def equal_or_nested_under_def normal_abs_isabs)
next
  case True
  let ?common = "longest_common_prefix (path_components r) (path_components c)"
  have "commonpath r c = Some r \<longleftrightarrow> ''/'' @ py_join ''/'' ?common = r"
    using True assms by (simp add: commonpath_def normal_abs_isabs Let_def)
  also have "\<dots> \<longleftrightarrow> py_join ''/'' ?common = py_join ''/'' (path_components r)"
    using assms unfolding normal_abs_def by (metis same_append_eq)
  also have "\<dots> \<longleftrightarrow> ?common = path_components r"
    using py_join_prefix_inj [OF longest_common_prefix_prefix1 path_components_nonempty]
    by metis
  also have "\<dots> \<longleftrightarrow> prefix (path_components r) (path_components c)"
    by (rule lcp_eq_iff_prefix)
  finally show ?thesis using True by (simp add: equal_or_nested_under_def)
qed


lemma py_split_not_Nil: "py_split sep s \<noteq> []"
  by (induction s) (auto split: list.splits)

lemma py_split_append_word:
  "sep \<notin> set w \<Longrightarrow>
     py_split sep (w @ rest) = (w @ hd (py_split sep rest)) # tl (py_split sep rest)"
  by (induction w) (auto simp: py_split_not_Nil split: list.splits)

lemma sibling_not_nested:
  assumes "c \<noteq> CHR ''/''"
  shows "\<not> equal_or_nested_under ''/attachments'' (''/attachments'' @ c # rest)"
proof -
  let ?h = "hd (py_split (CHR ''/'') rest)"
  let ?t = "tl (py_split (CHR ''/'') rest)"
  have "py_split (CHR ''/'') ((''attachments'' @ [c]) @ rest) = ((''attachments'' @ [c]) @ ?h) # ?t"
    by (rule py_split_append_word) (use assms in simp)
  then have "path_components (''/attachments'' @ c # rest)
      = (''attachments'' @ c # ?h) # filter (\<lambda>c. c \<noteq> [] \<and> c \<noteq> ''.'') ?t"
    by (simp add: path_components_def)
  moreover have "path_components ''/attachments'' = [''attachments'']"
    by (simp add: path_components_def)
  ultimately show ?thesis
    by (simp add: equal_or_nested_under_def)
qed

lemma relative_rejected:
  "\<not> isabs p \<Longrightarrow> \<exists>e. resolve_and_validate_attachment_path w p = Inl e"
  by (simp add: resolve_and_validate_attachment_path_def split: sum.splits)

lemma normal_abs_attachments: "normal_abs ''/attachments''"
  by (simp add: normal_abs_def path_components_def)

lemma outside_rejected:
  assumes "realpath w (ALLOWED_ATTACHMENTS_DIR (environ w)) = Inr ''/attachments''"
    and "realpath w p = Inr canonical"
    and "\<not> equal_or_nested_under ''/attachments'' canonical"
  shows "\<exists>e. resolve_and_validate_attachment_path w p = Inl e \<and> is_invalid_path e"
proof -
  from assms(3) have "commonpath ''/attachments'' canonical \<noteq> Some ''/attachments''"
    by (simp add: commonpath_root_iff [OF normal_abs_attachments])
  with assms(1,2) show ?thesis
    by (auto simp: resolve_and_validate_attachment_path_def split: option.splits)
qed

lemmas guard_eval =
  plain_world_def linked_world_def resolve_and_validate_attachment_path_def
  ALLOWED_ATTACHMENTS_DIR_def ALLOWED_ATTACHMENTS_DIR_ENV_def windows_shaped_def
  py_startswith_def isabs_def realpath_links_def path_components_def commonpath_def raised_def
  Let_def

text \<open>
  C1, as stated: \<^verbatim>\<open>/attachments-other/x\<close> is always rejected. With the allowed root
  \<^verbatim>\<open>/attachments\<close> and a symbolic link from \<^verbatim>\<open>/attachments-other\<close> to the directory
  \<^verbatim>\<open>/attachments/shared\<close>, the guard accepts it: its canonical form
  \<^verbatim>\<open>/attachments/shared/x\<close> is nested under the root.
\<close>

theorem symlink_accepted_counterexample:
  "realpath (linked_world [([''attachments-other''], [''attachments'', ''shared''])] Map.empty [])
      ''/attachments'' = Inr ''/attachments''
   \<and> realpath (linked_world [([''attachments-other''], [''attachments'', ''shared''])] Map.empty [])
      ''/attachments-other/x'' = Inr ''/attachments/shared/x''
   \<and> resolve_and_validate_attachment_path
        (linked_world [([''attachments-other''], [''attachments'', ''shared''])] Map.empty [])
        ''/attachments-other/x''
       = Inr ''/attachments/shared/x''"
  by (simp add: guard_eval)

text \<open>
  C1, amended. The guard returns a path exactly for a non-empty candidate that is not
  Windows-shaped (no colon among its first three characters, no leading double
  backslash), is absolute, and for which both canonical forms exist (\<^verbatim>\<open>realpath\<close> raises
  for neither the root nor the candidate) and the canonical allowed root is the common
  path of the two; what it returns is the canonical form of the candidate. With the
  root in the normal form of \<^verbatim>\<open>realpath\<close>, the last condition says that the components of
  the root are the first components of the candidate: equal to the root, or nested under
  it. A rejection is an invalid-path error or what \<^verbatim>\<open>realpath\<close> raised. A relative path
  is rejected in every world. With the root \<^verbatim>\<open>/attachments\<close>, a candidate whose
  canonical form is not nested under the root is rejected with an invalid-path error;
  no path that begins with \<^verbatim>\<open>/attachments\<close> and goes on with another character than
  a slash is nested under it (\<^verbatim>\<open>/attachments-evil\<close>, \<^verbatim>\<open>/attachments-other/x\<close>), nor
  is \<^verbatim>\<open>/etc/passwd\<close>. So the paths of the specification are rejected where they are
  their own canonical forms, as on a filesystem without symbolic links; a path with a
  null character is rejected there with the \<^verbatim>\<open>ValueError\<close> of \<^verbatim>\<open>realpath\<close>.
\<close>

theorem path_guard:
  "(resolve_and_validate_attachment_path w p = Inr c \<longleftrightarrow>
      p \<noteq> [] \<and> \<not> windows_shaped p \<and> isabs p
      \<and> (\<exists>root. realpath w (ALLOWED_ATTACHMENTS_DIR (environ w)) = Inr root
             \<and> realpath w p = Inr c \<and> commonpath root c = Some root))
   \<and> (realpath w (ALLOWED_ATTACHMENTS_DIR (environ w)) = Inr root \<and> normal_abs root \<longrightarrow>
        (resolve_and_validate_attachment_path w p = Inr c \<longleftrightarrow>
           p \<noteq> [] \<and> \<not> windows_shaped p \<and> isabs p \<and> realpath w p = Inr c
           \<and> equal_or_nested_under root c))
   \<and> (\<forall>e. resolve_and_validate_attachment_path w p = Inl e \<longrightarrow>
          is_invalid_path e
          \<or> (\<exists>exc. e = raised exc
                \<and> (realpath w (ALLOWED_ATTACHMENTS_DIR (environ w)) = Inl exc
                     \<or> realpath w p = Inl exc)))
   \<and> (\<not> isabs p \<longrightarrow> (\<exists>e. resolve_and_validate_attachment_path w p = Inl e))
   \<and> (realpath w (ALLOWED_ATTACHMENTS_DIR (environ w)) = Inr ''/attachments''
        \<and> realpath w p = Inr canonical \<and> \<not> equal_or_nested_under ''/attachments'' canonical \<longrightarrow>
        (\<exists>e. resolve_and_validate_attachment_path w p = Inl e \<and> is_invalid_path e))
   \<and> (sep \<noteq> CHR ''/'' \<longrightarrow> \<not> equal_or_nested_under ''/attachments'' (''/attachments'' @ sep # rest))
   \<and> \<not> equal_or_nested_under ''/attachments'' ''/attachments-evil''
   \<and> \<not> equal_or_nested_under ''/attachments'' ''/attachments-other/x''
   \<and> \<not> equal_or_nested_under ''/attachments'' ''/etc/passwd''
   \<and> resolve_and_validate_attachment_path (plain_world Map.empty []) ''/attachments/../etc/passwd''
        = Inl (PathOutsideRoot ''/attachments'' ''/attachments/../etc/passwd'')
   \<and> resolve_and_validate_attachment_path (plain_world Map.empty []) ''/attachments-other/x''
        = Inl (PathOutsideRoot ''/attachments'' ''/attachments-other/x'')
   \<and> resolve_and_validate_attachment_path (plain_world Map.empty []) ''/attachments-evil''
        = Inl (PathOutsideRoot ''/attachments'' ''/attachments-evil'')
   \<and> resolve_and_validate_attachment_path (plain_world Map.empty []) ''attachments/report.pdf''
        = Inl (PathNotAbsolute ''/attachments'' ''attachments/report.pdf'')
   \<and> resolve_and_validate_attachment_path (plain_world Map.empty [])
        [CHR ''/'', CHR ''a'', CHR 0x00, CHR ''b'']
        = Inl (LibraryError ''ValueError'' ''embedded null byte'')"
proof -
  let ?root = "realpath w (ALLOWED_ATTACHMENTS_DIR (environ w))"
  let ?guard = "resolve_and_validate_attachment_path w p"
  have a: "?guard = Inr c \<longleftrightarrow>
      p \<noteq> [] \<and> \<not> windows_shaped p \<and> isabs p
      \<and> (\<exists>root. ?root = Inr root \<and> realpath w p = Inr c \<and> commonpath root c = Some root)"
    by (rule guard_accepts_iff)
  have b: "?guard = Inr c \<longleftrightarrow>
      p \<noteq> [] \<and> \<not> windows_shaped p \<and> isabs p \<and> realpath w p = Inr c
      \<and> equal_or_nested_under root c"
    if "?root = Inr root \<and> normal_abs root"
    using that a commonpath_root_iff [of root c] by auto
  have c: "\<forall>e. ?guard = Inl e \<longrightarrow>
          is_invalid_path e
          \<or> (\<exists>exc. e = raised exc \<and> (?root = Inl exc \<or> realpath w p = Inl exc))"
    using guard_rejects_invalid_path [of w p] by blast
  have d: "\<exists>e. ?guard = Inl e" if "\<not> isabs p"
    using that by (rule relative_rejected)
  have e: "\<exists>e. ?guard = Inl e \<and> is_invalid_path e"
    if "?root = Inr ''/attachments'' \<and> realpath w p = Inr canonical
        \<and> \<not> equal_or_nested_under ''/attachments'' canonical"
    using that outside_rejected [of w p canonical] by blast
  have f: "\<not> equal_or_nested_under ''/attachments'' (''/attachments'' @ sep # rest)"
    if "sep \<noteq> CHR ''/''"
    using that by (rule sibling_not_nested)
  have g: "\<not> equal_or_nested_under ''/attachments'' ''/attachments-evil''"
    "\<not> equal_or_nested_under ''/attachments'' ''/attachments-other/x''"
    "\<not> equal_or_nested_under ''/attachments'' ''/etc/passwd''"
    by (simp_all add: equal_or_nested_under_def path_components_def)
  have h: "resolve_and_validate_attachment_path (plain_world Map.empty []) ''/attachments/../etc/passwd''
        = Inl (PathOutsideRoot ''/attachments'' ''/attachments/../etc/passwd'')"
    "resolve_and_validate_attachment_path (plain_world Map.empty []) ''/attachments-other/x''
        = Inl (PathOutsideRoot ''/attachments'' ''/attachments-other/x'')"
    "resolve_and_validate_attachment_path (plain_world Map.empty []) ''/attachments-evil''
        = Inl (PathOutsideRoot ''/attachments'' ''/attachments-evil'')"
    "resolve_and_validate_attachment_path (plain_world Map.empty []) ''attachments/report.pdf''
        = Inl (PathNotAbsolute ''/attachments'' ''attachments/report.pdf'')"
    "resolve_and_validate_attachment_path (plain_world Map.empty [])
        [CHR ''/'', CHR ''a'', CHR 0x00, CHR ''b'']
        = Inl (LibraryError ''ValueError'' ''embedded null byte'')"
    by (simp_all add: guard_eval)
  from a b c d e f g h show ?thesis by blast
qed

theorem path_guard_witness:
  "realpath (plain_world Map.empty []) (ALLOWED_ATTACHMENTS_DIR (environ (plain_world Map.empty [])))
     = Inr ''/attachments''
   \<and> normal_abs ''/attachments''
   \<and> resolve_and_validate_attachment_path (plain_world Map.empty []) ''/attachments/a/../report.pdf''
        = Inr ''/attachments/report.pdf''
   \<and> equal_or_nested_under ''/attachments'' ''/attachments/report.pdf''
   \<and> \<not> isabs ''report.pdf''
   \<and> resolve_and_validate_attachment_path (plain_world Map.empty []) ''report.pdf''
        = Inl (PathNotAbsolute ''/attachments'' ''report.pdf'')
   \<and> is_invalid_path (PathNotAbsolute ''/attachments'' ''report.pdf'')
   \<and> realpath (plain_world Map.empty []) ''/attachments-evil/x'' = Inr ''/attachments-evil/x''
   \<and> \<not> equal_or_nested_under ''/attachments'' ''/attachments-evil/x''
   \<and> resolve_and_validate_attachment_path (plain_world Map.empty []) ''/attachments-evil/x''
        = Inl (PathOutsideRoot ''/attachments'' ''/attachments-evil/x'')"
proof -
  let ?w = "plain_world Map.empty []"
  have pre: "realpath ?w (ALLOWED_ATTACHMENTS_DIR (environ ?w)) = Inr ''/attachments''"
    "normal_abs ''/attachments''"
    "realpath ?w ''/attachments/a/../report.pdf'' = Inr ''/attachments/report.pdf''"
    "equal_or_nested_under ''/attachments'' ''/attachments/report.pdf''"
    "\<not> windows_shaped ''/attachments/a/../report.pdf''" "isabs ''/attachments/a/../report.pdf''"
    "\<not> isabs ''report.pdf''"
    "realpath ?w ''/attachments-evil/x'' = Inr ''/attachments-evil/x''"
    "\<not> equal_or_nested_under ''/attachments'' ''/attachments-evil/x''"
    by (simp_all add: guard_eval normal_abs_def equal_or_nested_under_def)
  have direct: "resolve_and_validate_attachment_path ?w ''report.pdf''
        = Inl (PathNotAbsolute ''/attachments'' ''report.pdf'')"
    "resolve_and_validate_attachment_path ?w ''/attachments-evil/x''
        = Inl (PathOutsideRoot ''/attachments'' ''/attachments-evil/x'')"
    by (simp_all add: guard_eval)
  note t = path_guard [where w = ?w and root = "''/attachments''" and sep = "CHR ''-''"
      and rest = "''evil/x''"]
  from pre t [where p = "''/attachments/a/../report.pdf''" and c = "''/attachments/report.pdf''"
      and canonical = "''/''", THEN conjunct2, THEN conjunct1]
  have a: "resolve_and_validate_attachment_path ?w ''/attachments/a/../report.pdf''
        = Inr ''/attachments/report.pdf''"
    by simp
  from pre direct t [where p = "''report.pdf''" and c = "''x''" and canonical = "''/''",
      THEN conjunct2, THEN conjunct2, THEN conjunct2, THEN conjunct1]
  have b: "is_invalid_path (PathNotAbsolute ''/attachments'' ''report.pdf'')" by simp
  from pre direct t [where p = "''/attachments-evil/x''" and c = "''x''"
      and canonical = "''/attachments-evil/x''",
      THEN conjunct2, THEN conjunct2, THEN conjunct2, THEN conjunct2, THEN conjunct1]
  have c: "is_invalid_path (PathOutsideRoot ''/attachments'' ''/attachments-evil/x'')" by simp
  from pre a b c direct show ?thesis by (intro conjI)
qed

subsection \<open>The size estimate of Base64 content\<close>





















lemmas b64_eval =
  b64decode_def is_ascii_def a2b_base64_def b64_value_def estimated_base64_decoded_size_def
  py_split_ws_def py_isspace_def py_endswith_def correctly_padded_def pad_count_def

subsection \<open>The attachment loader\<close>

lemma py_strip_Nil: "py_strip [] = []"
  by (simp add: py_strip_def)

lemma loader_filename:
  "py_strip (if truthy (att ''filename'') then py_str (att ''filename'') else [])
     = attachment_filename att"
  by (auto simp: attachment_filename_def truthy_def py_str_def py_strip_Nil split: option.splits)

lemma loader_content_type_cases:
  "(truthy (att ''content_type'') \<longrightarrow>
      attachment_content_type att = Some (py_str (att ''content_type'')))
   \<and> (\<not> truthy (att ''content_type'') \<longrightarrow> attachment_content_type att = None)"
  by (auto simp: attachment_content_type_def truthy_def py_str_def split: option.splits)

lemma loader_missing_filename:
  "attachment_filename att = [] \<Longrightarrow> read_attachment_bytes w att i L = Inl (MissingFilename i)"
  unfolding read_attachment_bytes_def loader_filename by simp

lemma loader_path_branch:
  assumes "attachment_filename att \<noteq> []" and "truthy (att ''path'')"
  shows "read_attachment_bytes w att i L =
     (case resolve_and_validate_attachment_path w (py_str (att ''path'')) of
        Inl e \<Rightarrow> Inl e
      | Inr safe_path \<Rightarrow>
          if \<not> isfile w safe_path then Inl (FileNotFound safe_path)
          else (case getsize w safe_path of
                  Inl exc \<Rightarrow> Inl (raised exc)
                | Inr n \<Rightarrow>
                    if L < int n then Inl (AttachmentTooLarge (attachment_filename att) (int n) L)
                    else (case read_file w safe_path of
                            Inl exc \<Rightarrow> Inl (raised exc)
                          | Inr payload \<Rightarrow>
                              if L < int (length payload)
                              then Inl (AttachmentTooLarge (attachment_filename att)
                                          (int (length payload)) L)
                              else Inr (attachment_filename att, payload,
                                        attachment_content_type att))))"
  using assms loader_content_type_cases [of att]
  unfolding read_attachment_bytes_def loader_filename
  by (simp add: Let_def enforce_attachment_limit_def split: sum.splits)

lemma loader_inline_branch:
  assumes "attachment_filename att \<noteq> []" and "\<not> truthy (att ''path'')"
    and "truthy (att ''content_base64'')"
  shows "read_attachment_bytes w att i L =
     (if L < estimated_base64_decoded_size (py_str (att ''content_base64''))
      then Inl (AttachmentTooLarge (attachment_filename att)
                  (estimated_base64_decoded_size (py_str (att ''content_base64''))) L)
      else (case b64decode (py_str (att ''content_base64'')) of
              Inl u \<Rightarrow> Inl Base64NotAscii
            | Inr (Inl exc) \<Rightarrow> Inl (InvalidBase64 (attachment_filename att) exc)
            | Inr (Inr payload) \<Rightarrow>
                if L < int (length payload)
                then Inl (AttachmentTooLarge (attachment_filename att) (int (length payload)) L)
                else Inr (attachment_filename att, payload, attachment_content_type att)))"
  using assms loader_content_type_cases [of att]
  unfolding read_attachment_bytes_def loader_filename
  by (simp add: Let_def enforce_attachment_limit_def split: sum.splits)

lemma loader_missing_source:
  assumes "attachment_filename att \<noteq> []" and "\<not> truthy (att ''path'')"
    and "\<not> truthy (att ''content_base64'')"
  shows "read_attachment_bytes w att i L = Inl (MissingSource (attachment_filename att))"
  using assms unfolding read_attachment_bytes_def loader_filename
  by (simp add: Let_def)



lemma loader_selects:
  assumes "attachment_filename att \<noteq> []"
  shows "read_attachment_bytes w att i L =
     (if truthy (att ''path'')
      then load_from_path w (attachment_filename att) (attachment_content_type att)
             (py_str (att ''path'')) L
      else if truthy (att ''content_base64'')
      then load_inline (attachment_filename att) (attachment_content_type att)
             (py_str (att ''content_base64'')) L
      else Inl (MissingSource (attachment_filename att)))"
  using assms
  by (simp add: loader_path_branch loader_inline_branch loader_missing_source
      load_from_path_def load_inline_def)




lemma loader_ignores_inline:
  assumes "truthy (att ''path'')"
  shows "read_attachment_bytes w (att(''content_base64'' := v)) i L = read_attachment_bytes w att i L"
proof -
  let ?att = "att(''content_base64'' := v)"
  have same: "attachment_filename ?att = attachment_filename att"
    "attachment_content_type ?att = attachment_content_type att" "?att ''path'' = att ''path''"
    by (simp_all add: attachment_filename_def attachment_content_type_def)
  show ?thesis
  proof (cases "attachment_filename att = []")
    case True
    with same show ?thesis by (simp add: loader_missing_filename)
  next
    case False
    with same assms show ?thesis
      by (simp add: loader_path_branch cong: sum.case_cong if_cong)
  qed
qed

lemma loader_falsy_path_absent:
  assumes "\<not> truthy (att ''path'')"
  shows "read_attachment_bytes w (att(''path'' := None)) i L = read_attachment_bytes w att i L"
proof -
  let ?att = "att(''path'' := None)"
  have same: "attachment_filename ?att = attachment_filename att"
    "attachment_content_type ?att = attachment_content_type att"
    "?att ''content_base64'' = att ''content_base64''" "\<not> truthy (?att ''path'')"
    by (simp_all add: attachment_filename_def attachment_content_type_def truthy_def)
  show ?thesis
  proof (cases "attachment_filename att = []")
    case True
    with same show ?thesis by (simp add: loader_missing_filename)
  next
    case fn: False
    show ?thesis
    proof (cases "truthy (att ''content_base64'')")
      case True
      with fn same assms show ?thesis
        by (simp add: loader_inline_branch cong: sum.case_cong if_cong)
    next
      case False
      with fn same assms show ?thesis by (simp add: loader_missing_source)
    qed
  qed
qed

lemma loader_falsy_content_absent:
  assumes "\<not> truthy (att ''content_base64'')"
  shows "read_attachment_bytes w (att(''content_base64'' := None)) i L
           = read_attachment_bytes w att i L"
proof (cases "truthy (att ''path'')")
  case True
  then show ?thesis by (rule loader_ignores_inline)
next
  case no_path: False
  let ?att = "att(''content_base64'' := None)"
  have same: "attachment_filename ?att = attachment_filename att"
    "?att ''path'' = att ''path''" "\<not> truthy (?att ''content_base64'')"
    by (simp_all add: attachment_filename_def truthy_def)
  show ?thesis
  proof (cases "attachment_filename att = []")
    case True
    with same show ?thesis by (simp add: loader_missing_filename)
  next
    case False
    with same no_path assms show ?thesis by (simp add: loader_missing_source)
  qed
qed

lemma enforce_cases:
  "(L < n \<longrightarrow> enforce_attachment_limit name n L = Inl (AttachmentTooLarge name n L))
   \<and> (n \<le> L \<longrightarrow> enforce_attachment_limit name n L = Inr ())"
  by (simp add: enforce_attachment_limit_def)

lemmas loader_eval =
  read_attachment_bytes_def attachment_filename_def attachment_content_type_def
  truthy_def py_str_def py_strip_def py_isspace_def enforce_attachment_limit_def guard_eval









text \<open>
  C10. The loader selects the source of a descriptor after it has checked the filename
  (a descriptor without one fails with the missing-filename error before that). The
  selection is by truthiness, the path first: with a truthy path the loader loads from
  the path, with a falsy path and a truthy inline content it loads the inline content,
  and with both falsy it fails with the missing-source error. With a truthy path the
  result does not depend on the inline content, whatever it is, and no error reports
  that both are given: when the path passes the guard and names a file within the
  limit, the bytes of the file are returned. A falsy path is treated as an absent one:
  the loader goes on to the inline content and, when that decodes within the limit,
  returns the decoded bytes. A falsy inline content is treated as an absent one.
\<close>

theorem source_selection:
  "(attachment_filename att \<noteq> [] \<longrightarrow>
      read_attachment_bytes w att i L =
        (if truthy (att ''path'')
         then load_from_path w (attachment_filename att) (attachment_content_type att)
                (py_str (att ''path'')) L
         else if truthy (att ''content_base64'')
         then load_inline (attachment_filename att) (attachment_content_type att)
                (py_str (att ''content_base64'')) L
         else Inl (MissingSource (attachment_filename att))))
   \<and> (truthy (att ''path'') \<longrightarrow>
      read_attachment_bytes w (att(''content_base64'' := v)) i L = read_attachment_bytes w att i L)
   \<and> (attachment_filename att \<noteq> [] \<and> truthy (att ''path'')
        \<and> resolve_and_validate_attachment_path w (py_str (att ''path'')) = Inr safe_path
        \<and> isfile w safe_path \<and> getsize w safe_path = Inr sz \<and> int sz \<le> L
        \<and> read_file w safe_path = Inr payload \<and> int (length payload) \<le> L \<longrightarrow>
      read_attachment_bytes w (att(''content_base64'' := v)) i L
        = Inr (attachment_filename att, payload, attachment_content_type att))
   \<and> (\<not> truthy (att ''path'') \<longrightarrow>
      read_attachment_bytes w (att(''path'' := None)) i L = read_attachment_bytes w att i L)
   \<and> (attachment_filename att \<noteq> [] \<and> \<not> truthy (att ''path'')
        \<and> truthy (att ''content_base64'')
        \<and> b64decode (py_str (att ''content_base64'')) = Inr (Inr decoded)
        \<and> estimated_base64_decoded_size (py_str (att ''content_base64'')) \<le> L
        \<and> int (length decoded) \<le> L \<longrightarrow>
      read_attachment_bytes w att i L
        = Inr (attachment_filename att, decoded, attachment_content_type att))
   \<and> (\<not> truthy (att ''content_base64'') \<longrightarrow>
      read_attachment_bytes w (att(''content_base64'' := None)) i L
        = read_attachment_bytes w att i L)
   \<and> (attachment_filename att \<noteq> [] \<and> \<not> truthy (att ''path'')
        \<and> \<not> truthy (att ''content_base64'') \<longrightarrow>
      read_attachment_bytes w att i L = Inl (MissingSource (attachment_filename att)))
   \<and> (attachment_filename att = [] \<longrightarrow>
      read_attachment_bytes w att i L = Inl (MissingFilename i))"
proof (intro conjI impI)
  show "read_attachment_bytes w att i L =
        (if truthy (att ''path'')
         then load_from_path w (attachment_filename att) (attachment_content_type att)
                (py_str (att ''path'')) L
         else if truthy (att ''content_base64'')
         then load_inline (attachment_filename att) (attachment_content_type att)
                (py_str (att ''content_base64'')) L
         else Inl (MissingSource (attachment_filename att)))"
    if "attachment_filename att \<noteq> []"
    using that by (rule loader_selects)
  show "read_attachment_bytes w (att(''content_base64'' := v)) i L = read_attachment_bytes w att i L"
    if "truthy (att ''path'')"
    using that by (rule loader_ignores_inline)
  show "read_attachment_bytes w (att(''content_base64'' := v)) i L
        = Inr (attachment_filename att, payload, attachment_content_type att)"
    if h: "attachment_filename att \<noteq> [] \<and> truthy (att ''path'')
        \<and> resolve_and_validate_attachment_path w (py_str (att ''path'')) = Inr safe_path
        \<and> isfile w safe_path \<and> getsize w safe_path = Inr sz \<and> int sz \<le> L
        \<and> read_file w safe_path = Inr payload \<and> int (length payload) \<le> L"
  proof -
    from h have "read_attachment_bytes w att i L
        = Inr (attachment_filename att, payload, attachment_content_type att)"
      by (simp add: loader_path_branch)
    with h show ?thesis by (simp add: loader_ignores_inline)
  qed
  show "read_attachment_bytes w (att(''path'' := None)) i L = read_attachment_bytes w att i L"
    if "\<not> truthy (att ''path'')"
    using that by (rule loader_falsy_path_absent)
  show "read_attachment_bytes w att i L
        = Inr (attachment_filename att, decoded, attachment_content_type att)"
    if "attachment_filename att \<noteq> [] \<and> \<not> truthy (att ''path'')
        \<and> truthy (att ''content_base64'')
        \<and> b64decode (py_str (att ''content_base64'')) = Inr (Inr decoded)
        \<and> estimated_base64_decoded_size (py_str (att ''content_base64'')) \<le> L
        \<and> int (length decoded) \<le> L"
    using that by (simp add: loader_inline_branch)
  show "read_attachment_bytes w (att(''content_base64'' := None)) i L
        = read_attachment_bytes w att i L"
    if "\<not> truthy (att ''content_base64'')"
    using that by (rule loader_falsy_content_absent)
  show "read_attachment_bytes w att i L = Inl (MissingSource (attachment_filename att))"
    if "attachment_filename att \<noteq> [] \<and> \<not> truthy (att ''path'')
        \<and> \<not> truthy (att ''content_base64'')"
    using that by (simp add: loader_missing_source)
  show "read_attachment_bytes w att i L = Inl (MissingFilename i)"
    if "attachment_filename att = []"
    using that by (rule loader_missing_filename)
qed

theorem source_selection_witness:
  "read_attachment_bytes (plain_world Map.empty [(''/attachments/hi.txt'', [72, 105])])
      [''filename'' \<mapsto> ''hi.txt'', ''path'' \<mapsto> ''/attachments/hi.txt'',
       ''content_base64'' \<mapsto> ''QUJD''] 0 100
     = Inr (''hi.txt'', [72, 105], None)
   \<and> read_attachment_bytes (plain_world Map.empty [(''/attachments/hi.txt'', [72, 105])])
      [''filename'' \<mapsto> ''hi.txt'', ''path'' \<mapsto> ''/etc/passwd'',
       ''content_base64'' \<mapsto> ''QUJD''] 0 100
     = Inl (PathOutsideRoot ''/attachments'' ''/etc/passwd'')
   \<and> read_attachment_bytes (plain_world Map.empty [(''/attachments/hi.txt'', [72, 105])])
      [''filename'' \<mapsto> ''hi.txt'', ''path'' \<mapsto> [], ''content_base64'' \<mapsto> ''QUJD''] 0 100
     = Inr (''hi.txt'', [65, 66, 67], None)
   \<and> read_attachment_bytes (plain_world Map.empty [(''/attachments/hi.txt'', [72, 105])])
      [''filename'' \<mapsto> ''hi.txt'', ''path'' \<mapsto> [], ''content_base64'' \<mapsto> []] 0 100
     = Inl (MissingSource ''hi.txt'')
   \<and> read_attachment_bytes (plain_world Map.empty [(''/attachments/hi.txt'', [72, 105])])
      [''filename'' \<mapsto> ''  '', ''path'' \<mapsto> ''/attachments/hi.txt''] 7 100
     = Inl (MissingFilename 7)"
proof -
  let ?w = "plain_world Map.empty [(''/attachments/hi.txt'', [72, 105])]"
  let ?path = "[''filename'' \<mapsto> ''hi.txt'', ''path'' \<mapsto> ''/attachments/hi.txt'']"
  let ?both = "[''filename'' \<mapsto> ''hi.txt'', ''path'' \<mapsto> ''/attachments/hi.txt'',
       ''content_base64'' \<mapsto> ''QUJD'']"
  let ?outside = "[''filename'' \<mapsto> ''hi.txt'', ''path'' \<mapsto> ''/etc/passwd'',
       ''content_base64'' \<mapsto> ''QUJD'']"
  let ?inline = "[''filename'' \<mapsto> ''hi.txt'', ''path'' \<mapsto> [], ''content_base64'' \<mapsto> ''QUJD'']"
  let ?none = "[''filename'' \<mapsto> ''hi.txt'', ''path'' \<mapsto> [], ''content_base64'' \<mapsto> []]"
  let ?blank = "[''filename'' \<mapsto> ''  '', ''path'' \<mapsto> ''/attachments/hi.txt'']"
  have maps: "?path(''content_base64'' := Some ''QUJD'') = ?both"
    by (rule ext) simp
  have on_disk: "attachment_filename ?path \<noteq> [] \<and> truthy (?path ''path'')
        \<and> resolve_and_validate_attachment_path ?w (py_str (?path ''path''))
            = Inr ''/attachments/hi.txt''
        \<and> isfile ?w ''/attachments/hi.txt'' \<and> getsize ?w ''/attachments/hi.txt'' = Inr 2
        \<and> int 2 \<le> 100
        \<and> read_file ?w ''/attachments/hi.txt'' = Inr [72, 105]
        \<and> int (length [72, 105 :: byte]) \<le> 100"
    by (simp add: loader_eval)
  have outside: "attachment_filename ?outside \<noteq> []" "truthy (?outside ''path'')"
    "attachment_filename ?outside = ''hi.txt''"
    "load_from_path ?w ''hi.txt'' (attachment_content_type ?outside)
        (py_str (?outside ''path'')) 100
      = Inl (PathOutsideRoot ''/attachments'' ''/etc/passwd'')"
    by (simp_all add: loader_eval load_from_path_def)
  have encoded: "attachment_filename ?inline \<noteq> [] \<and> \<not> truthy (?inline ''path'')
        \<and> truthy (?inline ''content_base64'')
        \<and> b64decode (py_str (?inline ''content_base64'')) = Inr (Inr [65, 66, 67])
        \<and> estimated_base64_decoded_size (py_str (?inline ''content_base64'')) \<le> 100
        \<and> int (length [65, 66, 67 :: byte]) \<le> 100"
    by (simp add: loader_eval b64_eval)
  have missing: "attachment_filename ?none \<noteq> [] \<and> \<not> truthy (?none ''path'')
        \<and> \<not> truthy (?none ''content_base64'')"
    by (simp add: loader_eval)
  have names: "attachment_filename ?path = ''hi.txt''" "attachment_content_type ?path = None"
    "attachment_filename ?inline = ''hi.txt''" "attachment_content_type ?inline = None"
    "attachment_filename ?none = ''hi.txt''" "attachment_filename ?blank = []"
    by (simp_all add: loader_eval)
  from source_selection [where w = ?w and L = 100 and att = ?path and v = "Some ''QUJD''" and i = 0
      and safe_path = "''/attachments/hi.txt''" and sz = 2 and payload = "[72, 105]"
      and decoded = "[]",
      THEN conjunct2, THEN conjunct2, THEN conjunct1, THEN mp, OF on_disk] maps names
  have a: "read_attachment_bytes ?w ?both 0 100 = Inr (''hi.txt'', [72, 105], None)"
    by simp
  from source_selection [where w = ?w and L = 100 and att = ?outside and v = None and i = 0 and safe_path = "''x''" and sz = 0
      and payload = "[]" and decoded = "[]", THEN conjunct1, THEN mp] outside
  have b: "read_attachment_bytes ?w ?outside 0 100
      = Inl (PathOutsideRoot ''/attachments'' ''/etc/passwd'')"
    by simp
  from source_selection [where w = ?w and L = 100 and att = ?inline and v = None and i = 0
      and safe_path = "''x''" and sz = 0 and payload = "[]" and decoded = "[65, 66, 67]",
      THEN conjunct2, THEN conjunct2, THEN conjunct2, THEN conjunct2, THEN conjunct1,
      THEN mp, OF encoded] names
  have c: "read_attachment_bytes ?w ?inline 0 100 = Inr (''hi.txt'', [65, 66, 67], None)"
    by simp
  from source_selection [where w = ?w and L = 100 and att = ?none and v = None and i = 0 and safe_path = "''x''" and sz = 0
      and payload = "[]" and decoded = "[]",
      THEN conjunct2, THEN conjunct2, THEN conjunct2, THEN conjunct2, THEN conjunct2,
      THEN conjunct2, THEN conjunct1, THEN mp, OF missing] names
  have d: "read_attachment_bytes ?w ?none 0 100 = Inl (MissingSource ''hi.txt'')"
    by simp
  from source_selection [where w = ?w and L = 100 and att = ?blank and v = None and i = 7 and safe_path = "''x''" and sz = 0
      and payload = "[]" and decoded = "[]",
      THEN conjunct2, THEN conjunct2, THEN conjunct2, THEN conjunct2, THEN conjunct2,
      THEN conjunct2, THEN conjunct2, THEN mp] names
  have e: "read_attachment_bytes ?w ?blank 7 100 = Inl (MissingFilename 7)"
    by simp
  from a b c d e show ?thesis by (intro conjI)
qed

subsection \<open>The command\<close>

lemma message_setitem_headers:
  "message_setitem w m name value = Inr m' \<Longrightarrow>
     m' = m\<lparr>headers := headers m @ [(name, value)]\<rparr>"
  by (simp add: message_setitem_def split: option.splits)

lemma message_add_attachment_parts:
  "message_add_attachment w m part = Inr m' \<Longrightarrow> m' = m\<lparr>parts := parts m @ [part]\<rparr>"
  by (simp add: message_add_attachment_def split: option.splits)

lemma assemble_message_headers:
  assumes "assemble_message w cmd = Inr m"
  shows "headers m =
     [(''Subject'', email_subject cmd), (''From'', email_from cmd), (''To'', email_to cmd)]
     @ (if truthy (email_cc cmd) then [(''Cc'', py_str (email_cc cmd))] else [])
     @ (if truthy (email_reply_to cmd) then [(''Reply-To'', py_str (email_reply_to cmd))] else [])"
  using assms
  by (auto simp: assemble_message_def and_then_def message_setitem_def message_set_content_def
      message_add_alternative_def new_message_def split: sum.splits option.splits if_splits)

lemma assemble_message_bcc:
  "assemble_message w (cmd\<lparr>email_bcc := b\<rparr>) = assemble_message w cmd"
  by (simp add: assemble_message_def cong: if_cong)

lemma assemble_message_header_names:
  assumes "assemble_message w cmd = Inr m"
  shows "fst ` set (headers m) \<subseteq> {''Subject'', ''From'', ''To'', ''Cc'', ''Reply-To''}"
  unfolding assemble_message_headers [OF assms] by auto

lemma attach_one_cases:
  "attach_one w L i att m = Inl e \<longleftrightarrow>
     read_attachment_bytes w att i L = Inl e
     \<or> (\<exists>fn payload ct. read_attachment_bytes w att i L = Inr (fn, payload, ct)
           \<and> (guess_content_type w fn ct = Inl e
                \<or> (\<exists>mt st. guess_content_type w fn ct = Inr (mt, st)
                      \<and> message_add_attachment w m
                           \<lparr>part_payload = payload, part_maintype = mt,
                            part_subtype = st, part_filename = fn\<rparr> = Inl e)))"
  by (auto simp: attach_one_def split: sum.splits prod.splits)

lemma attach_one_message:
  assumes "attach_one w L i att m = Inr (m', entry)"
  shows "headers m' = headers m \<and> content m' = content m \<and> alternative m' = alternative m
     \<and> \<not> is_will_send entry"
  using assms
  by (auto simp: attach_one_def dest!: message_add_attachment_parts split: sum.splits prod.splits)

lemma attach_all_message:
  "attach_all w L i atts msg logs = (err, msg', logs') \<Longrightarrow>
     headers msg' = headers msg \<and> content msg' = content msg
     \<and> alternative msg' = alternative msg"
proof (induction atts arbitrary: i msg logs)
  case Nil
  then show ?case by auto
next
  case (Cons att atts)
  show ?case
  proof (cases "attach_one w L i att msg")
    case (Inl e)
    with Cons.prems show ?thesis by auto
  next
    case (Inr r)
    obtain m1 entry where r: "r = (m1, entry)" by (cases r)
    from Cons.prems Inr r
    have "attach_all w L (i + 1) atts m1 (logs @ [entry]) = (err, msg', logs')" by simp
    from Cons.IH [OF this] attach_one_message [OF Inr [unfolded r]] show ?thesis by simp
  qed
qed

lemma attach_all_logs:
  "attach_all w L i atts msg logs = (err, msg', logs') \<Longrightarrow>
     \<forall>l \<in> set logs. \<not> is_will_send l \<Longrightarrow> \<forall>l \<in> set logs'. \<not> is_will_send l"
proof (induction atts arbitrary: i msg logs)
  case Nil
  then show ?case by auto
next
  case (Cons att atts)
  show ?case
  proof (cases "attach_one w L i att msg")
    case (Inl e)
    with Cons.prems show ?thesis by auto
  next
    case (Inr r)
    obtain m1 entry where r: "r = (m1, entry)" by (cases r)
    from Cons.prems(1) Inr r
    have "attach_all w L (i + 1) atts m1 (logs @ [entry]) = (err, msg', logs')" by simp
    moreover from Cons.prems(2) attach_one_message [OF Inr [unfolded r]]
    have "\<forall>l \<in> set (logs @ [entry]). \<not> is_will_send l" by simp
    ultimately show ?thesis by (rule Cons.IH)
  qed
qed

lemma attach_all_first_failure:
  "k < length atts \<Longrightarrow> attach_all w L i (take k atts) msg logs = (None, mk, logsk) \<Longrightarrow>
     attach_one w L (i + k) (atts ! k) mk = Inl e \<Longrightarrow>
     attach_all w L i atts msg logs = (Some e, mk, logsk)"
proof (induction atts arbitrary: i k msg logs)
  case Nil
  then show ?case by simp
next
  case (Cons att atts)
  show ?case
  proof (cases k)
    case 0
    with Cons.prems show ?thesis by simp
  next
    case (Suc k')
    show ?thesis
    proof (cases "attach_one w L i att msg")
      case (Inl e')
      with Cons.prems(2) Suc show ?thesis by simp
    next
      case (Inr r)
      obtain m1 entry where r: "r = (m1, entry)" by (cases r)
      have "attach_all w L (i + 1) atts m1 (logs @ [entry]) = (Some e, mk, logsk)"
      proof (rule Cons.IH [of k'])
        show "k' < length atts" using Cons.prems(1) Suc by simp
        show "attach_all w L (i + 1) (take k' atts) m1 (logs @ [entry]) = (None, mk, logsk)"
          using Cons.prems(2) Suc Inr r by simp
        show "attach_one w L (i + 1 + k') (atts ! k') mk = Inl e"
          using Cons.prems(3) Suc by simp
      qed
      with Inr r show ?thesis by simp
    qed
  qed
qed

lemma attach_all_failure_origin:
  "attach_all w L i atts msg logs = (Some e, msg', logs') \<Longrightarrow>
     \<exists>k<length atts. attach_all w L i (take k atts) msg logs = (None, msg', logs')
        \<and> attach_one w L (i + k) (atts ! k) msg' = Inl e"
proof (induction atts arbitrary: i msg logs)
  case Nil
  then show ?case by simp
next
  case (Cons att atts)
  show ?case
  proof (cases "attach_one w L i att msg")
    case (Inl e')
    with Cons.prems have "e' = e" "msg' = msg" "logs' = logs" by simp_all
    with Inl have "0 < length (att # atts)
        \<and> attach_all w L i (take 0 (att # atts)) msg logs = (None, msg', logs')
        \<and> attach_one w L (i + 0) ((att # atts) ! 0) msg' = Inl e"
      by simp
    then show ?thesis by blast
  next
    case (Inr r)
    obtain m1 entry where r: "r = (m1, entry)" by (cases r)
    from Cons.prems Inr r
    have "attach_all w L (i + 1) atts m1 (logs @ [entry]) = (Some e, msg', logs')" by simp
    from Cons.IH [OF this] obtain k where k: "k < length atts"
      and pre: "attach_all w L (i + 1) (take k atts) m1 (logs @ [entry]) = (None, msg', logs')"
      and fail: "attach_one w L (i + 1 + k) (atts ! k) msg' = Inl e"
      by blast
    from k pre fail Inr r have "Suc k < length (att # atts)
        \<and> attach_all w L i (take (Suc k) (att # atts)) msg logs = (None, msg', logs')
        \<and> attach_one w L (i + Suc k) ((att # atts) ! Suc k) msg' = Inl e"
      by simp
    then show ?thesis by blast
  qed
qed

lemma attach_all_load_failure:
  "k < length atts \<Longrightarrow> read_attachment_bytes w (atts ! k) (i + k) L = Inl e \<Longrightarrow>
     fst (attach_all w L i atts msg logs) \<noteq> None"
proof (induction atts arbitrary: i k msg logs)
  case Nil
  then show ?case by simp
next
  case (Cons att atts)
  show ?case
  proof (cases "attach_one w L i att msg")
    case (Inl e')
    then show ?thesis by simp
  next
    case (Inr r)
    obtain m1 entry where r: "r = (m1, entry)" by (cases r)
    show ?thesis
    proof (cases k)
      case 0
      with Cons.prems have "attach_one w L i att msg = Inl e"
        by (simp add: attach_one_cases)
      with Inr show ?thesis by simp
    next
      case (Suc k')
      with Cons.prems have "k' < length atts"
        and "read_attachment_bytes w (atts ! k') (i + 1 + k') L = Inl e"
        by simp_all
      then have "fst (attach_all w L (i + 1) atts m1 (logs @ [entry])) \<noteq> None"
        by (rule Cons.IH)
      with Inr r show ?thesis by simp
    qed
  qed
qed

lemma attachment_stage_logs:
  assumes "attachment_stage w cmd L msg = (err, msg', logs')"
  shows "\<forall>l \<in> set logs'. \<not> is_will_send l"
proof (cases "realpath w (ALLOWED_ATTACHMENTS_DIR (environ w))")
  case (Inl exc)
  with assms show ?thesis by (simp add: attachment_stage_def)
next
  case (Inr root)
  with assms have "attach_all w L 0 (attachments cmd) msg
      [AttachmentsAllowedDir root, AttachmentsSizeLimit L] = (err, msg', logs')"
    by (simp add: attachment_stage_def)
  moreover have "\<forall>l \<in> set [AttachmentsAllowedDir root, AttachmentsSizeLimit L]. \<not> is_will_send l"
    by simp
  ultimately show ?thesis by (rule attach_all_logs)
qed

lemma attachment_stage_message:
  assumes "attachment_stage w cmd L msg = (err, msg', logs')"
  shows "headers msg' = headers msg"
proof (cases "realpath w (ALLOWED_ATTACHMENTS_DIR (environ w))")
  case (Inl exc)
  with assms show ?thesis by (simp add: attachment_stage_def)
next
  case (Inr root)
  with assms have "attach_all w L 0 (attachments cmd) msg
      [AttachmentsAllowedDir root, AttachmentsSizeLimit L] = (err, msg', logs')"
    by (simp add: attachment_stage_def)
  from attach_all_message [OF this] show ?thesis by simp
qed

lemma attachment_stage_first_failure:
  assumes "realpath w (ALLOWED_ATTACHMENTS_DIR (environ w)) = Inr root"
    and "k < length (attachments cmd)"
    and "attach_all w L 0 (take k (attachments cmd)) msg
           [AttachmentsAllowedDir root, AttachmentsSizeLimit L] = (None, mk, logsk)"
    and "attach_one w L k (attachments cmd ! k) mk = Inl e"
  shows "attachment_stage w cmd L msg = (Some e, mk, logsk)"
  using assms attach_all_first_failure [of k "attachments cmd" w L 0 msg _ mk logsk e]
  by (simp add: attachment_stage_def)

lemma smtp_session_log_head:
  "smtp_session w cmd t msg rcpts logs = (err, logs', trace) \<Longrightarrow>
     \<exists>rest. logs' = logs @ WillSend t # rest"
  by (auto simp: smtp_session_def smtp_abort_def Let_def split: option.splits if_splits)

lemma smtp_session_sends:
  "smtp_session w cmd t msg rcpts logs = (err, logs', trace) \<Longrightarrow>
     SendMessage m r \<in> set trace \<Longrightarrow> m = msg \<and> r = rcpts"
  by (auto simp: smtp_session_def smtp_abort_def Let_def split: option.splits if_splits)

lemma smtp_session_connects:
  "smtp_session w cmd t msg rcpts logs = (err, logs', trace) \<Longrightarrow>
     trace \<noteq> [] \<and> hd trace = Connect (smtp_host cmd) (smtp_port cmd) t"
  by (auto simp: smtp_session_def smtp_abort_def Let_def split: option.splits if_splits)

lemma smtp_session_delivers:
  "smtp_session w cmd t msg rcpts logs = (None, logs', trace) \<Longrightarrow>
     SendMessage msg rcpts \<in> set trace"
  by (auto simp: smtp_session_def smtp_abort_def Let_def split: option.splits if_splits)

lemma execute_raises:
  "assemble_message w cmd = Inl e \<Longrightarrow> execute w cmd = (Raised e, [])"
  by (simp add: execute_def Let_def)

lemma execute_attachment_failure:
  assumes "assemble_message w cmd = Inr msg"
    and "attachment_stage w cmd (get_attachments_limit_bytes (environ w)) msg = (Some e, msg', logs)"
  shows "execute w cmd = (Returned (make_response (Some e) (logs @ [AttachmentError e])), [])
     \<and> (\<forall>l \<in> set (logs @ [AttachmentError e]). \<not> is_will_send l)"
  using assms attachment_stage_logs [OF assms(2)]
  by (simp add: execute_def Let_def)

lemma execute_load_failure:
  assumes "k < length (attachments cmd)"
    and "read_attachment_bytes w (attachments cmd ! k) k (get_attachments_limit_bytes (environ w))
           = Inl e"
  shows "snd (execute w cmd) = []
     \<and> (\<forall>resp. fst (execute w cmd) = Returned resp \<longrightarrow>
            (\<exists>e'. response_error resp = Some e' \<and> last (spiff_logs resp) = AttachmentError e')
            \<and> (\<forall>l \<in> set (spiff_logs resp). \<not> is_will_send l))"
proof (cases "assemble_message w cmd")
  case (Inl exc)
  then show ?thesis by (simp add: execute_raises)
next
  case (Inr msg)
  let ?L = "get_attachments_limit_bytes (environ w)"
  obtain err msg' logs where stage: "attachment_stage w cmd ?L msg = (err, msg', logs)"
    by (rule prod_cases3)
  have "err \<noteq> None"
  proof (cases "realpath w (ALLOWED_ATTACHMENTS_DIR (environ w))")
    case (Inl exc)
    with stage show ?thesis by (auto simp: attachment_stage_def)
  next
    case root: (Inr root)
    from assms have "fst (attach_all w ?L 0 (attachments cmd) msg
        [AttachmentsAllowedDir root, AttachmentsSizeLimit ?L]) \<noteq> None"
      by (intro attach_all_load_failure [of k]) simp_all
    with stage root show ?thesis by (auto simp: attachment_stage_def)
  qed
  then obtain e' where "err = Some e'" by auto
  with stage execute_attachment_failure [OF Inr, of e' msg' logs]
  show ?thesis by (auto simp: make_response_def)
qed

lemma execute_without_recipients:
  assumes "assemble_message w cmd = Inr msg"
    and "attachment_stage w cmd (get_attachments_limit_bytes (environ w)) msg = (None, msg', logs)"
    and "envelope_recipients cmd = []"
  shows "execute w cmd = (Returned (make_response (Some NoRecipients) logs), [])
     \<and> (\<forall>l \<in> set logs. \<not> is_will_send l)"
  using assms attachment_stage_logs [OF assms(2)]
  by (simp add: execute_def Let_def)

lemma execute_empty_envelope:
  assumes "envelope_recipients cmd = []"
  shows "snd (execute w cmd) = []
     \<and> (\<forall>resp. fst (execute w cmd) = Returned resp \<longrightarrow> response_error resp \<noteq> None)"
proof (cases "assemble_message w cmd")
  case (Inl e)
  then show ?thesis by (simp add: execute_raises)
next
  case (Inr msg)
  obtain err msg' logs where
    stage: "attachment_stage w cmd (get_attachments_limit_bytes (environ w)) msg = (err, msg', logs)"
    by (rule prod_cases3)
  show ?thesis
  proof (cases err)
    case None
    with Inr stage assms show ?thesis
      using execute_without_recipients [of w cmd msg msg' logs]
      by (simp add: make_response_def)
  next
    case (Some e)
    with Inr stage show ?thesis
      using execute_attachment_failure [of w cmd msg e msg' logs]
      by (simp add: make_response_def)
  qed
qed

lemma execute_sends:
  assumes "SendMessage m r \<in> set (snd (execute w cmd))"
  shows "\<exists>assembled. assemble_message w cmd = Inr assembled
     \<and> m = fst (snd (attachment_stage w cmd (get_attachments_limit_bytes (environ w)) assembled))
     \<and> headers m = headers assembled \<and> r = envelope_recipients cmd"
proof (cases "assemble_message w cmd")
  case (Inl e)
  with assms show ?thesis by (simp add: execute_raises)
next
  case (Inr msg)
  obtain err msg' logs' where
    stage: "attachment_stage w cmd (get_attachments_limit_bytes (environ w)) msg = (err, msg', logs')"
    by (rule prod_cases3)
  obtain serr slogs strace where
    session: "smtp_session w cmd (get_smtp_timeout_seconds (environ w)) msg'
                (envelope_recipients cmd) logs' = (serr, slogs, strace)"
    by (rule prod_cases3)
  from Inr stage assms have err: "err = None"
    by (cases err) (simp_all add: execute_def Let_def)
  from Inr stage err assms have ne: "envelope_recipients cmd \<noteq> []"
    by (auto simp: execute_def Let_def split: if_splits)
  from Inr stage err ne session have "snd (execute w cmd) = strace"
    by (simp add: execute_def Let_def)
  with assms have "SendMessage m r \<in> set strace" by simp
  with session have "m = msg' \<and> r = envelope_recipients cmd" by (rule smtp_session_sends)
  with attachment_stage_message [OF stage] stage Inr show ?thesis by simp
qed

lemma bcc_in_envelope:
  "set (split_recipients (email_bcc cmd)) \<subseteq> set (envelope_recipients cmd)"
  by (auto simp: envelope_recipients_tokens dedupe_keep_order_stable set_stable_dedupe)

lemma execute_success_sends:
  assumes "fst (execute w cmd) = Returned resp" and "response_error resp = None"
  shows "\<exists>m. SendMessage m (envelope_recipients cmd) \<in> set (snd (execute w cmd))"
proof (cases "assemble_message w cmd")
  case (Inl e)
  with assms show ?thesis by (simp add: execute_raises)
next
  case (Inr msg)
  obtain err msg' logs' where
    stage: "attachment_stage w cmd (get_attachments_limit_bytes (environ w)) msg = (err, msg', logs')"
    by (rule prod_cases3)
  obtain serr slogs strace where
    session: "smtp_session w cmd (get_smtp_timeout_seconds (environ w)) msg'
                (envelope_recipients cmd) logs' = (serr, slogs, strace)"
    by (rule prod_cases3)
  from Inr stage assms have err: "err = None"
    by (cases err) (auto simp: execute_def Let_def make_response_def)
  from Inr stage err assms have ne: "envelope_recipients cmd \<noteq> []"
    by (auto simp: execute_def Let_def make_response_def split: if_splits)
  from Inr stage err ne session
  have ex: "execute w cmd = (Returned (make_response serr slogs), strace)"
    by (simp add: execute_def Let_def)
  with assms have "serr = None" by (auto simp: make_response_def)
  with session have "SendMessage msg' (envelope_recipients cmd) \<in> set strace"
    by (simp add: smtp_session_delivers)
  with ex show ?thesis by auto
qed

lemmas execute_eval =
  execute_def make_response_def assemble_message_def and_then_def new_message_def
  message_setitem_def message_set_content_def message_add_alternative_def
  message_add_attachment_def header_refused_def py_splitlines_def is_linebreak_def
  attachment_stage_def attach_one_def envelope_recipients_def
  split_recipients_def py_replace_def dedupe_keep_order_def guess_content_type_def
  split_slash_once_def smtp_session_def smtp_abort_def smtp_call_def
  get_attachments_limit_bytes_def
  get_smtp_timeout_seconds_def env_int_def DEFAULT_ATTACHMENTS_LIMIT_MB_def
  HARD_ATTACHMENTS_LIMIT_MB_def DEFAULT_SMTP_TIMEOUT_SECONDS_def example_command_def
  loader_eval

text \<open>
  C5. When the attachment stage of an invocation fails (the message has been assembled
  and the first \<^verbatim>\<open>try\<close> block ends with an exception \<open>e\<close>), the response carries \<open>e\<close>, no
  call is made on an SMTP connection, and the log has no "will send" entry and ends with
  the attachment error. The stage fails with the exception of the first attachment whose
  processing fails: when the attachments before the one at index \<open>k\<close> are processed
  without an exception and processing that one raises \<open>e\<close>, that is how the invocation
  ends. Processing an attachment is loading it, finding its content type and adding it
  to the message; it fails exactly when one of the three raises. When the stage fails
  after the allowed directory was resolved, its exception is that of processing one of
  the attachments. An invocation that does not reach the attachment stage, because a
  header or the body was refused, processes no attachment and makes no call on an SMTP
  connection either. So whenever some attachment of the command cannot be loaded, no
  call is made on an SMTP connection, and a response that is returned carries an error,
  ends its log with the attachment error and has no "will send" entry.
\<close>

theorem attachment_failure_aborts:
  "(assemble_message w cmd = Inr message
      \<and> attachment_stage w cmd (get_attachments_limit_bytes (environ w)) message
          = (Some e, message', logs)
    \<longrightarrow> execute w cmd = (Returned (make_response (Some e) (logs @ [AttachmentError e])), [])
        \<and> (\<forall>l \<in> set (logs @ [AttachmentError e]). \<not> is_will_send l))
   \<and> (assemble_message w cmd = Inr message
      \<and> realpath w (ALLOWED_ATTACHMENTS_DIR (environ w)) = Inr root
      \<and> k < length (attachments cmd)
      \<and> attach_all w (get_attachments_limit_bytes (environ w)) 0 (take k (attachments cmd)) message
           [AttachmentsAllowedDir root,
            AttachmentsSizeLimit (get_attachments_limit_bytes (environ w))]
          = (None, message_k, logs_k)
      \<and> attach_one w (get_attachments_limit_bytes (environ w)) k (attachments cmd ! k) message_k
          = Inl e
    \<longrightarrow> execute w cmd = (Returned (make_response (Some e) (logs_k @ [AttachmentError e])), [])
        \<and> (\<forall>l \<in> set (logs_k @ [AttachmentError e]). \<not> is_will_send l))
   \<and> (attach_one w L i att m = Inl e \<longleftrightarrow>
        read_attachment_bytes w att i L = Inl e
        \<or> (\<exists>fn payload ct. read_attachment_bytes w att i L = Inr (fn, payload, ct)
              \<and> (guess_content_type w fn ct = Inl e
                   \<or> (\<exists>mt st. guess_content_type w fn ct = Inr (mt, st)
                         \<and> message_add_attachment w m
                              \<lparr>part_payload = payload, part_maintype = mt,
                               part_subtype = st, part_filename = fn\<rparr> = Inl e))))
   \<and> (realpath w (ALLOWED_ATTACHMENTS_DIR (environ w)) = Inr root
      \<and> attachment_stage w cmd (get_attachments_limit_bytes (environ w)) message
          = (Some e, message', logs)
    \<longrightarrow> (\<exists>k<length (attachments cmd).
           attach_one w (get_attachments_limit_bytes (environ w)) k (attachments cmd ! k) message'
             = Inl e))
   \<and> (assemble_message w cmd = Inl e \<longrightarrow> execute w cmd = (Raised e, []))
   \<and> (k < length (attachments cmd)
      \<and> read_attachment_bytes w (attachments cmd ! k) k (get_attachments_limit_bytes (environ w))
          = Inl e
    \<longrightarrow> snd (execute w cmd) = []
        \<and> (\<forall>resp. fst (execute w cmd) = Returned resp \<longrightarrow>
               (\<exists>e'. response_error resp = Some e'
                      \<and> last (spiff_logs resp) = AttachmentError e')
               \<and> (\<forall>l \<in> set (spiff_logs resp). \<not> is_will_send l)))
   \<and> response_error (make_response (Some e) logs) = Some e
   \<and> spiff_logs (make_response (Some e) logs) = logs"
proof (intro conjI impI)
  let ?L = "get_attachments_limit_bytes (environ w)"
  show "execute w cmd = (Raised e, [])" if "assemble_message w cmd = Inl e"
    using that by (rule execute_raises)
  {
    assume h: "k < length (attachments cmd)
      \<and> read_attachment_bytes w (attachments cmd ! k) k ?L = Inl e"
    from execute_load_failure [of k cmd w e] h
    show "snd (execute w cmd) = []"
      and "\<forall>resp. fst (execute w cmd) = Returned resp \<longrightarrow>
               (\<exists>e'. response_error resp = Some e'
                      \<and> last (spiff_logs resp) = AttachmentError e')
               \<and> (\<forall>l \<in> set (spiff_logs resp). \<not> is_will_send l)"
      by simp_all
  }
  {
    assume h: "assemble_message w cmd = Inr message
      \<and> attachment_stage w cmd ?L message = (Some e, message', logs)"
    from execute_attachment_failure [of w cmd message e message' logs] h
    show "execute w cmd = (Returned (make_response (Some e) (logs @ [AttachmentError e])), [])"
      and "\<forall>l \<in> set (logs @ [AttachmentError e]). \<not> is_will_send l"
      by simp_all
  }
  {
    assume h: "assemble_message w cmd = Inr message
      \<and> realpath w (ALLOWED_ATTACHMENTS_DIR (environ w)) = Inr root
      \<and> k < length (attachments cmd)
      \<and> attach_all w ?L 0 (take k (attachments cmd)) message
           [AttachmentsAllowedDir root, AttachmentsSizeLimit ?L] = (None, message_k, logs_k)
      \<and> attach_one w ?L k (attachments cmd ! k) message_k = Inl e"
    then have "attachment_stage w cmd ?L message = (Some e, message_k, logs_k)"
      by (intro attachment_stage_first_failure [of w root k]) simp_all
    from execute_attachment_failure [of w cmd message e message_k logs_k] this h
    show "execute w cmd = (Returned (make_response (Some e) (logs_k @ [AttachmentError e])), [])"
      and "\<forall>l \<in> set (logs_k @ [AttachmentError e]). \<not> is_will_send l"
      by simp_all
  }
  show "attach_one w L i att m = Inl e \<longleftrightarrow>
        read_attachment_bytes w att i L = Inl e
        \<or> (\<exists>fn payload ct. read_attachment_bytes w att i L = Inr (fn, payload, ct)
              \<and> (guess_content_type w fn ct = Inl e
                   \<or> (\<exists>mt st. guess_content_type w fn ct = Inr (mt, st)
                         \<and> message_add_attachment w m
                              \<lparr>part_payload = payload, part_maintype = mt,
                               part_subtype = st, part_filename = fn\<rparr> = Inl e)))"
    by (rule attach_one_cases)
  {
    assume h: "realpath w (ALLOWED_ATTACHMENTS_DIR (environ w)) = Inr root
      \<and> attachment_stage w cmd ?L message = (Some e, message', logs)"
    then have root: "realpath w (ALLOWED_ATTACHMENTS_DIR (environ w)) = Inr root"
      and stage: "attachment_stage w cmd ?L message = (Some e, message', logs)"
      by simp_all
    from stage have "attach_all w ?L 0 (attachments cmd) message
        [AttachmentsAllowedDir root, AttachmentsSizeLimit ?L] = (Some e, message', logs)"
      by (simp add: attachment_stage_def root)
    from attach_all_failure_origin [OF this]
    show "\<exists>k<length (attachments cmd). attach_one w ?L k (attachments cmd ! k) message' = Inl e"
      by auto
  }
  show "response_error (make_response (Some e) logs) = Some e"
    and "spiff_logs (make_response (Some e) logs) = logs"
    by (simp_all add: make_response_def)
qed

theorem attachment_failure_aborts_witness:
  "assemble_message (plain_world Map.empty [(''/etc/passwd'', [114])])
      (example_command\<lparr>attachments :=
         [[''filename'' \<mapsto> ''passwd'', ''path'' \<mapsto> ''/etc/passwd'']]\<rparr>)
     = Inr \<lparr>headers = [(''Subject'', ''Report''), (''From'', ''noreply@example.org''),
                        (''To'', ''a@x, b@y''), (''Cc'', ''c@z; a@x'')],
            content = ''See the attachment.'', alternative = None, parts = []\<rparr>
   \<and> read_attachment_bytes (plain_world Map.empty [(''/etc/passwd'', [114])])
        [''filename'' \<mapsto> ''passwd'', ''path'' \<mapsto> ''/etc/passwd''] 0 104857600
       = Inl (PathOutsideRoot ''/attachments'' ''/etc/passwd'')
   \<and> is_invalid_path (PathOutsideRoot ''/attachments'' ''/etc/passwd'')
   \<and> execute (plain_world Map.empty [(''/etc/passwd'', [114])])
        (example_command\<lparr>attachments :=
           [[''filename'' \<mapsto> ''passwd'', ''path'' \<mapsto> ''/etc/passwd'']]\<rparr>)
       = (Returned (make_response (Some (PathOutsideRoot ''/attachments'' ''/etc/passwd''))
            [AttachmentsAllowedDir ''/attachments'', AttachmentsSizeLimit 104857600,
             AttachmentError (PathOutsideRoot ''/attachments'' ''/etc/passwd'')]), [])
   \<and> list_all (\<lambda>l. \<not> is_will_send l)
        [AttachmentsAllowedDir ''/attachments'', AttachmentsSizeLimit 104857600,
         AttachmentError (PathOutsideRoot ''/attachments'' ''/etc/passwd'')]"
proof -
  let ?w = "plain_world Map.empty [(''/etc/passwd'', [114])]"
  let ?att = "[''filename'' \<mapsto> ''passwd'', ''path'' \<mapsto> ''/etc/passwd'']"
  let ?cmd = "example_command\<lparr>attachments := [?att]\<rparr>"
  let ?msg = "\<lparr>headers = [(''Subject'', ''Report''), (''From'', ''noreply@example.org''),
                        (''To'', ''a@x, b@y''), (''Cc'', ''c@z; a@x'')],
            content = ''See the attachment.'', alternative = None, parts = []\<rparr>"
  let ?e = "PathOutsideRoot ''/attachments'' ''/etc/passwd''"
  have lim: "get_attachments_limit_bytes (environ ?w) = 104857600"
    by (simp add: plain_world_def linked_world_def get_attachments_limit_bytes_def env_int_def
        DEFAULT_ATTACHMENTS_LIMIT_MB_def HARD_ATTACHMENTS_LIMIT_MB_def)
  have asm: "assemble_message ?w ?cmd = Inr ?msg"
    by (simp add: execute_eval)
  have root: "realpath ?w (ALLOWED_ATTACHMENTS_DIR (environ ?w)) = Inr ''/attachments''"
    by (simp add: guard_eval)
  have rd: "read_attachment_bytes ?w ?att 0 104857600 = Inl ?e"
    by (simp add: loader_eval)
  then have one: "attach_one ?w 104857600 0 ?att ?msg = Inl ?e"
    by (simp add: attach_one_def)
  have h: "assemble_message ?w ?cmd = Inr ?msg
      \<and> realpath ?w (ALLOWED_ATTACHMENTS_DIR (environ ?w)) = Inr ''/attachments''
      \<and> 0 < length (attachments ?cmd)
      \<and> attach_all ?w (get_attachments_limit_bytes (environ ?w)) 0 (take 0 (attachments ?cmd)) ?msg
           [AttachmentsAllowedDir ''/attachments'',
            AttachmentsSizeLimit (get_attachments_limit_bytes (environ ?w))]
          = (None, ?msg, [AttachmentsAllowedDir ''/attachments'', AttachmentsSizeLimit 104857600])
      \<and> attach_one ?w (get_attachments_limit_bytes (environ ?w)) 0 (attachments ?cmd ! 0) ?msg
          = Inl ?e"
    using asm root one lim by simp
  from attachment_failure_aborts
         [where w = ?w and cmd = ?cmd and message = ?msg and root = "''/attachments''"
            and k = 0 and message_k = ?msg and e = ?e
            and logs_k = "[AttachmentsAllowedDir ''/attachments'', AttachmentsSizeLimit 104857600]",
          THEN conjunct2, THEN conjunct1, THEN mp, OF h]
  have ex: "execute ?w ?cmd = (Returned (make_response (Some ?e)
            [AttachmentsAllowedDir ''/attachments'', AttachmentsSizeLimit 104857600,
             AttachmentError ?e]), [])"
    and quiet: "\<forall>l \<in> set [AttachmentsAllowedDir ''/attachments'', AttachmentsSizeLimit 104857600,
             AttachmentError ?e]. \<not> is_will_send l"
    by simp_all
  from asm rd ex quiet show ?thesis by (simp add: list_all_iff)
qed

text \<open>
  C4, as stated: with an empty set of recipients the invocation fails with the
  no-recipients error. The recipients are looked at after the message has been
  assembled and the attachments attached. When an attachment fails, the invocation ends
  with that error: here with the missing-filename error of attachment 0, although To,
  Cc and Bcc are empty strings. When a header is refused, the exception leaves
  \<^verbatim>\<open>execute\<close>: here the \<^verbatim>\<open>ValueError\<close> for a subject of two lines.
\<close>

theorem no_recipients_counterexample:
  "envelope_recipients
     (example_command\<lparr>email_to := [], email_cc := Some [], email_bcc := Some [],
        attachments := [[''content_type'' \<mapsto> ''text/plain'']]\<rparr>) = []
   \<and> execute (plain_world Map.empty [])
        (example_command\<lparr>email_to := [], email_cc := Some [], email_bcc := Some [],
           attachments := [[''content_type'' \<mapsto> ''text/plain'']]\<rparr>)
      = (Returned (make_response (Some (MissingFilename 0))
           [AttachmentsAllowedDir ''/attachments'', AttachmentsSizeLimit 104857600,
            AttachmentError (MissingFilename 0)]), [])
   \<and> envelope_recipients
     (example_command\<lparr>email_subject := [CHR ''a'', CHR 0x0A, CHR ''b''],
        email_to := [], email_cc := Some [], email_bcc := Some []\<rparr>) = []
   \<and> execute (plain_world Map.empty [])
        (example_command\<lparr>email_subject := [CHR ''a'', CHR 0x0A, CHR ''b''],
           email_to := [], email_cc := Some [], email_bcc := Some []\<rparr>)
      = (Raised (LibraryError ''ValueError''
           ''Header values may not contain linefeed or carriage return characters''), [])"
  by (simp add: execute_eval)

text \<open>
  C4, amended. When the message has been assembled, the attachment stage has ended
  without an exception and To, Cc and Bcc together give no recipient (as when all three
  are empty), the invocation fails with the no-recipients error, without a call on an
  SMTP connection and without a "will send" entry in the log; so it does for a command
  without attachments once the message is assembled and the allowed directory
  resolved. With no recipients no invocation succeeds and none opens a connection: the
  exception of a refused header or body leaves \<^verbatim>\<open>execute\<close>, and a failure of the
  attachment stage is the error of the response.
\<close>

theorem no_recipients:
  "(envelope_recipients cmd = [] \<and> assemble_message w cmd = Inr message
      \<and> attachment_stage w cmd (get_attachments_limit_bytes (environ w)) message
          = (None, message', logs)
    \<longrightarrow> execute w cmd = (Returned (make_response (Some NoRecipients) logs), [])
        \<and> (\<forall>l \<in> set logs. \<not> is_will_send l))
   \<and> (envelope_recipients cmd = [] \<and> assemble_message w cmd = Inr message
      \<and> attachments cmd = []
      \<and> realpath w (ALLOWED_ATTACHMENTS_DIR (environ w)) = Inr root
    \<longrightarrow> execute w cmd
          = (Returned (make_response (Some NoRecipients)
               [AttachmentsAllowedDir root,
                AttachmentsSizeLimit (get_attachments_limit_bytes (environ w))]), []))
   \<and> (email_to cmd = [] \<and> \<not> truthy (email_cc cmd) \<and> \<not> truthy (email_bcc cmd)
    \<longrightarrow> envelope_recipients cmd = [])
   \<and> (envelope_recipients cmd = []
    \<longrightarrow> snd (execute w cmd) = []
        \<and> (\<forall>resp. fst (execute w cmd) = Returned resp \<longrightarrow> response_error resp \<noteq> None))
   \<and> (assemble_message w cmd = Inl e \<longrightarrow> execute w cmd = (Raised e, []))
   \<and> (assemble_message w cmd = Inr message
      \<and> attachment_stage w cmd (get_attachments_limit_bytes (environ w)) message
          = (Some e, message', logs)
    \<longrightarrow> execute w cmd = (Returned (make_response (Some e) (logs @ [AttachmentError e])), []))
   \<and> response_error (make_response (Some NoRecipients) logs) = Some NoRecipients"
proof (intro conjI impI)
  let ?L = "get_attachments_limit_bytes (environ w)"
  {
    assume h: "envelope_recipients cmd = [] \<and> assemble_message w cmd = Inr message
      \<and> attachment_stage w cmd ?L message = (None, message', logs)"
    from execute_without_recipients [of w cmd message message' logs] h
    show "execute w cmd = (Returned (make_response (Some NoRecipients) logs), [])"
      and "\<forall>l \<in> set logs. \<not> is_will_send l"
      by simp_all
  }
  {
    assume h: "envelope_recipients cmd = [] \<and> assemble_message w cmd = Inr message
      \<and> attachments cmd = []
      \<and> realpath w (ALLOWED_ATTACHMENTS_DIR (environ w)) = Inr root"
    then have "attachment_stage w cmd ?L message
        = (None, message, [AttachmentsAllowedDir root, AttachmentsSizeLimit ?L])"
      by (simp add: attachment_stage_def)
    from execute_without_recipients [OF _ this] h
    show "execute w cmd
          = (Returned (make_response (Some NoRecipients)
               [AttachmentsAllowedDir root, AttachmentsSizeLimit ?L]), [])"
      by simp
  }
  show "envelope_recipients cmd = []"
    if "email_to cmd = [] \<and> \<not> truthy (email_cc cmd) \<and> \<not> truthy (email_bcc cmd)"
    using that
    by (simp add: envelope_recipients_def split_recipients_def truthy_def dedupe_keep_order_def)
  {
    assume empty: "envelope_recipients cmd = []"
    from execute_empty_envelope [OF this, of w]
    show "snd (execute w cmd) = []"
      and "\<forall>resp. fst (execute w cmd) = Returned resp \<longrightarrow> response_error resp \<noteq> None"
      by simp_all
  }
  show "execute w cmd = (Raised e, [])" if "assemble_message w cmd = Inl e"
    using that by (rule execute_raises)
  show "execute w cmd = (Returned (make_response (Some e) (logs @ [AttachmentError e])), [])"
    if "assemble_message w cmd = Inr message
      \<and> attachment_stage w cmd ?L message = (Some e, message', logs)"
    using that execute_attachment_failure [of w cmd message e message' logs] by simp
  show "response_error (make_response (Some NoRecipients) logs) = Some NoRecipients"
    by (simp add: make_response_def)
qed

theorem no_recipients_witness:
  "envelope_recipients
     (example_command\<lparr>email_to := [], email_cc := Some [], email_bcc := Some []\<rparr>) = []
   \<and> assemble_message (plain_world Map.empty [])
        (example_command\<lparr>email_to := [], email_cc := Some [], email_bcc := Some []\<rparr>)
      = Inr \<lparr>headers = [(''Subject'', ''Report''), (''From'', ''noreply@example.org''),
                         (''To'', [])],
             content = ''See the attachment.'', alternative = None, parts = []\<rparr>
   \<and> execute (plain_world Map.empty [])
        (example_command\<lparr>email_to := [], email_cc := Some [], email_bcc := Some []\<rparr>)
      = (Returned (make_response (Some NoRecipients)
           [AttachmentsAllowedDir ''/attachments'', AttachmentsSizeLimit 104857600]), [])
   \<and> envelope_recipients
     (example_command\<lparr>email_to := '' ; , '', email_cc := None, email_bcc := Some '',''\<rparr>) = []"
proof -
  let ?w = "plain_world Map.empty []"
  let ?cmd = "example_command\<lparr>email_to := [], email_cc := Some [], email_bcc := Some []\<rparr>"
  let ?msg = "\<lparr>headers = [(''Subject'', ''Report''), (''From'', ''noreply@example.org''),
                         (''To'', [])],
             content = ''See the attachment.'', alternative = None, parts = []\<rparr>"
  have pre: "email_to ?cmd = [] \<and> \<not> truthy (email_cc ?cmd) \<and> \<not> truthy (email_bcc ?cmd)"
    by (simp add: truthy_def example_command_def)
  have atts: "attachments ?cmd = []"
    by (simp add: example_command_def)
  have asm: "assemble_message ?w ?cmd = Inr ?msg"
    by (simp add: execute_eval)
  have root: "realpath ?w (ALLOWED_ATTACHMENTS_DIR (environ ?w)) = Inr ''/attachments''"
    by (simp add: guard_eval)
  have lim: "get_attachments_limit_bytes (environ ?w) = 104857600"
    by (simp add: plain_world_def linked_world_def get_attachments_limit_bytes_def env_int_def
        DEFAULT_ATTACHMENTS_LIMIT_MB_def HARD_ATTACHMENTS_LIMIT_MB_def)
  have other: "envelope_recipients
     (example_command\<lparr>email_to := '' ; , '', email_cc := None, email_bcc := Some '',''\<rparr>) = []"
    by (simp add: execute_eval)
  note t = no_recipients [where w = ?w and cmd = ?cmd and message = ?msg
      and root = "''/attachments''"]
  from t [THEN conjunct2, THEN conjunct2, THEN conjunct1, THEN mp, OF pre]
  have a: "envelope_recipients ?cmd = []" .
  from a asm atts root have h: "envelope_recipients ?cmd = [] \<and> assemble_message ?w ?cmd = Inr ?msg
      \<and> attachments ?cmd = []
      \<and> realpath ?w (ALLOWED_ATTACHMENTS_DIR (environ ?w)) = Inr ''/attachments''"
    by (intro conjI)
  from t [THEN conjunct2, THEN conjunct1, THEN mp, OF h] lim
  have b: "execute ?w ?cmd = (Returned (make_response (Some NoRecipients)
           [AttachmentsAllowedDir ''/attachments'', AttachmentsSizeLimit 104857600]), [])"
    by simp
  from a asm b other show ?thesis by (intro conjI)
qed

text \<open>
  C9. The message is assembled without looking at the Bcc field: changing the field
  changes nothing of the assembly, and the headers of an assembled message are those
  of the Subject, From and To fields and, where given, of the Cc and Reply-To fields,
  so none is named Bcc. The addresses of the Bcc field are among the envelope
  recipients. Whatever message \<^verbatim>\<open>execute\<close> hands to the SMTP connection has the
  assembled headers, so no Bcc header, and is sent to the envelope recipients; two
  invocations that differ in the Bcc field only send the same message; and an
  invocation that returns without an error has sent a message to the envelope
  recipients.
\<close>

theorem bcc_only_in_envelope:
  "assemble_message w (cmd\<lparr>email_bcc := b\<rparr>) = assemble_message w cmd
   \<and> (assemble_message w cmd = Inr assembled \<longrightarrow>
        headers assembled =
          [(''Subject'', email_subject cmd), (''From'', email_from cmd), (''To'', email_to cmd)]
          @ (if truthy (email_cc cmd) then [(''Cc'', py_str (email_cc cmd))] else [])
          @ (if truthy (email_reply_to cmd)
             then [(''Reply-To'', py_str (email_reply_to cmd))] else [])
        \<and> fst ` set (headers assembled) \<subseteq> {''Subject'', ''From'', ''To'', ''Cc'', ''Reply-To''}
        \<and> ''Bcc'' \<notin> fst ` set (headers assembled))
   \<and> set (split_recipients (email_bcc cmd)) \<subseteq> set (envelope_recipients cmd)
   \<and> (SendMessage m r \<in> set (snd (execute w cmd)) \<longrightarrow>
        (\<exists>sent_from. assemble_message w cmd = Inr sent_from \<and> headers m = headers sent_from)
        \<and> fst ` set (headers m) \<subseteq> {''Subject'', ''From'', ''To'', ''Cc'', ''Reply-To''}
        \<and> ''Bcc'' \<notin> fst ` set (headers m)
        \<and> r = envelope_recipients cmd \<and> set (split_recipients (email_bcc cmd)) \<subseteq> set r)
   \<and> (SendMessage m r \<in> set (snd (execute w cmd))
        \<and> SendMessage m' r' \<in> set (snd (execute w (cmd\<lparr>email_bcc := b\<rparr>))) \<longrightarrow> m' = m)
   \<and> (fst (execute w cmd) = Returned resp \<and> response_error resp = None \<longrightarrow>
        (\<exists>sent. SendMessage sent (envelope_recipients cmd) \<in> set (snd (execute w cmd))))"
proof (intro conjI impI)
  let ?L = "get_attachments_limit_bytes (environ w)"
  show same: "assemble_message w (cmd\<lparr>email_bcc := b\<rparr>) = assemble_message w cmd"
    by (rule assemble_message_bcc)
  show env: "set (split_recipients (email_bcc cmd)) \<subseteq> set (envelope_recipients cmd)"
    by (rule bcc_in_envelope)
  {
    assume asm: "assemble_message w cmd = Inr assembled"
    show "headers assembled =
          [(''Subject'', email_subject cmd), (''From'', email_from cmd), (''To'', email_to cmd)]
          @ (if truthy (email_cc cmd) then [(''Cc'', py_str (email_cc cmd))] else [])
          @ (if truthy (email_reply_to cmd)
             then [(''Reply-To'', py_str (email_reply_to cmd))] else [])"
      using asm by (rule assemble_message_headers)
    show names: "fst ` set (headers assembled)
        \<subseteq> {''Subject'', ''From'', ''To'', ''Cc'', ''Reply-To''}"
      using asm by (rule assemble_message_header_names)
    from names show "''Bcc'' \<notin> fst ` set (headers assembled)" by auto
  }
  {
    assume sent: "SendMessage m r \<in> set (snd (execute w cmd))"
    from execute_sends [OF sent] obtain sent_from where
      asm: "assemble_message w cmd = Inr sent_from" and hm: "headers m = headers sent_from"
      and r: "r = envelope_recipients cmd"
      by blast
    from asm hm
    show "\<exists>sent_from. assemble_message w cmd = Inr sent_from \<and> headers m = headers sent_from"
      by blast
    from assemble_message_header_names [OF asm] hm
    show names: "fst ` set (headers m) \<subseteq> {''Subject'', ''From'', ''To'', ''Cc'', ''Reply-To''}"
      by simp
    from names show "''Bcc'' \<notin> fst ` set (headers m)" by auto
    from r show "r = envelope_recipients cmd" .
    from r env show "set (split_recipients (email_bcc cmd)) \<subseteq> set r" by simp
  }
  {
    assume both: "SendMessage m r \<in> set (snd (execute w cmd))
        \<and> SendMessage m' r' \<in> set (snd (execute w (cmd\<lparr>email_bcc := b\<rparr>)))"
    from execute_sends [OF both [THEN conjunct1]] obtain a1 where
      a1: "assemble_message w cmd = Inr a1"
      and m: "m = fst (snd (attachment_stage w cmd ?L a1))"
      by blast
    from execute_sends [OF both [THEN conjunct2]] obtain a2 where
      a2: "assemble_message w (cmd\<lparr>email_bcc := b\<rparr>) = Inr a2"
      and m': "m' = fst (snd (attachment_stage w (cmd\<lparr>email_bcc := b\<rparr>) ?L a2))"
      by blast
    from a1 a2 same have "a2 = a1" by simp
    moreover have "attachment_stage w (cmd\<lparr>email_bcc := b\<rparr>) ?L a1 = attachment_stage w cmd ?L a1"
      by (simp add: attachment_stage_def cong: sum.case_cong)
    ultimately show "m' = m" using m m' by simp
  }
  show "\<exists>sent. SendMessage sent (envelope_recipients cmd) \<in> set (snd (execute w cmd))"
    if "fst (execute w cmd) = Returned resp \<and> response_error resp = None"
    using that execute_success_sends [of w cmd resp] by blast
qed

theorem bcc_only_in_envelope_witness:
  "execute (plain_world Map.empty []) example_command
     = (Returned (make_response None
          [AttachmentsAllowedDir ''/attachments'', AttachmentsSizeLimit 104857600,
           WillSend 30, WillStartTls, WillLogin, DidLogin, DidSend 4]),
        [Connect ''mail.example.org'' 587 30, StartTls, Login ''user'' ''secret'',
         SendMessage
           \<lparr>headers = [(''Subject'', ''Report''), (''From'', ''noreply@example.org''),
                       (''To'', ''a@x, b@y''), (''Cc'', ''c@z; a@x'')],
            content = ''See the attachment.'', alternative = None, parts = []\<rparr>
           [''a@x'', ''b@y'', ''c@z'', ''d@w''],
         Quit])
   \<and> split_recipients (email_bcc example_command) = [''d@w'']
   \<and> envelope_recipients example_command = [''a@x'', ''b@y'', ''c@z'', ''d@w'']
   \<and> assemble_message (plain_world Map.empty []) (example_command\<lparr>email_bcc := Some ''e@v''\<rparr>)
       = assemble_message (plain_world Map.empty []) example_command
   \<and> assemble_message (plain_world Map.empty []) example_command
       = Inr \<lparr>headers = [(''Subject'', ''Report''), (''From'', ''noreply@example.org''),
                          (''To'', ''a@x, b@y''), (''Cc'', ''c@z; a@x'')],
              content = ''See the attachment.'', alternative = None, parts = []\<rparr>"
proof -
  let ?w = "plain_world Map.empty []"
  let ?msg = "\<lparr>headers = [(''Subject'', ''Report''), (''From'', ''noreply@example.org''),
                      (''To'', ''a@x, b@y''), (''Cc'', ''c@z; a@x'')],
           content = ''See the attachment.'', alternative = None, parts = []\<rparr>"
  have run: "execute ?w example_command
     = (Returned (make_response None
          [AttachmentsAllowedDir ''/attachments'', AttachmentsSizeLimit 104857600,
           WillSend 30, WillStartTls, WillLogin, DidLogin, DidSend 4]),
        [Connect ''mail.example.org'' 587 30, StartTls, Login ''user'' ''secret'',
         SendMessage ?msg [''a@x'', ''b@y'', ''c@z'', ''d@w''], Quit])"
    by (simp add: execute_eval)
  have bcc: "split_recipients (email_bcc example_command) = [''d@w'']"
    by (simp add: execute_eval)
  have asm: "assemble_message ?w example_command = Inr ?msg"
    by (simp add: execute_eval)
  from run have sent: "SendMessage ?msg [''a@x'', ''b@y'', ''c@z'', ''d@w'']
      \<in> set (snd (execute ?w example_command))" by simp
  note t = bcc_only_in_envelope
         [where cmd = example_command and b = "Some ''e@v''" and m = ?msg
            and r = "[''a@x'', ''b@y'', ''c@z'', ''d@w'']" and w = ?w and assembled = ?msg]
  from t [THEN conjunct2, THEN conjunct2, THEN conjunct2, THEN conjunct1, THEN mp, OF sent]
  have env: "envelope_recipients example_command = [''a@x'', ''b@y'', ''c@z'', ''d@w'']"
    by simp
  from t [THEN conjunct1]
  have same: "assemble_message ?w (example_command\<lparr>email_bcc := Some ''e@v''\<rparr>)
       = assemble_message ?w example_command" .
  from run bcc env same asm show ?thesis by (intro conjI)
qed

end
